theory Spec2Isabelle
  imports Complex_Main "HOL-Library.Sublist" "HOL-Library.Word"
begin

section \<open>Common data model\<close>

text \<open>
  A raised Python exception is a value carrying its message; a function that may raise
  returns \<open>exn + 'a\<close> with \<open>Inl\<close> for the exception.
\<close>

datatype exn = Exception string

fun str_of_exn :: "exn \<Rightarrow> string" where
  "str_of_exn (Exception m) = m"

text \<open>\<open>app/domain/models.py\<close>: \<open>FilterType\<close>, \<open>ProcessingResult\<close>, \<open>QuadResult\<close>.\<close>

datatype FilterType = ORIGINAL | GRAYSCALE | BLACK_WHITE | ENHANCED

record ProcessingResult =
  success :: bool
  output_path :: string
  error_message :: string
  processing_time_ms :: int

definition ProcessingResult_default :: ProcessingResult where
  "ProcessingResult_default =
     \<lparr>success = False, output_path = [], error_message = [], processing_time_ms = 0\<rparr>"

text \<open>\<open>os.path.join\<close> on a POSIX system, for two components.\<close>

definition path_join :: "string \<Rightarrow> string \<Rightarrow> string" where
  "path_join a b =
     (if prefix ''/'' b then b
      else if a = [] \<or> last a = CHR ''/'' then a @ b
      else a @ ''/'' @ b)"

text \<open>Python's \<open>p in s\<close> on strings: \<open>p\<close> occurs in \<open>s\<close> as a contiguous substring.\<close>

fun py_in :: "string \<Rightarrow> string \<Rightarrow> bool" where
  "py_in p [] = (p = [])"
| "py_in p (c # cs) = (prefix p (c # cs) \<or> py_in p cs)"

section \<open>ScannerPipeline.cleanup\_temp\_files\<close>

text \<open>
  The cache directory as the call sees it: \<open>os.listdir\<close> either raises or returns the
  names in the directory, and \<open>os.remove\<close> on a path either succeeds or raises (the
  source swallows that exception and goes on). The model returns the paths that were
  removed, in the order of the listing.
\<close>

record cache_dir =
  listing :: "exn + string list"
  removable :: "string \<Rightarrow> bool"

definition temp_markers :: "string list" where
  "temp_markers = [''warped_'', ''rotated_'', ''deskewed_'', ''filtered_'', ''sanitized_'']"

definition is_temp_name :: "string \<Rightarrow> bool" where
  "is_temp_name filename = list_ex (\<lambda>p. py_in p filename) temp_markers"

definition cleanup_temp_files ::
  "string \<Rightarrow> cache_dir \<Rightarrow> string list option \<Rightarrow> string list" where
  "cleanup_temp_files cache_path d keep_paths =
     (let keep_set = (case keep_paths of None \<Rightarrow> [] | Some ks \<Rightarrow> ks) in
      case listing d of
        Inl e \<Rightarrow> []
      | Inr names \<Rightarrow>
          filter (\<lambda>filepath. removable d filepath)
            (map (path_join cache_path)
              (filter (\<lambda>filename. path_join cache_path filename \<notin> set keep_set
                                  \<and> is_temp_name filename) names)))"

text \<open>
  The reading of the specification: a name matches an intermediate-stage prefix when it
  starts with one of the five markers.
\<close>

definition has_temp_prefix :: "string \<Rightarrow> bool" where
  "has_temp_prefix filename = list_ex (\<lambda>p. prefix p filename) temp_markers"

section \<open>PerspectiveWarper (warp.py)\<close>

type_synonym point = "int \<times> int"

text \<open>
  \<open>int(x)\<close> on a float truncates towards zero. The edge lengths of a quad are modelled
  as exact real square roots: for pixel coordinates the integer part of the double the
  source computes is the integer part of the exact root.
\<close>

definition py_int :: "real \<Rightarrow> int" where
  "py_int x = (if 0 \<le> x then \<lfloor>x\<rfloor> else \<lceil>x\<rceil>)"

definition distance :: "point \<Rightarrow> point \<Rightarrow> real" where
  "distance p1 p2 = sqrt (of_int ((fst p2 - fst p1)\<^sup>2 + (snd p2 - snd p1)\<^sup>2))"

text \<open>
  \<open>_calculate_output_size\<close>: the tuple assignment \<open>tl, tr, br, bl = quad_points\<close> raises
  ValueError unless there are exactly four points.
\<close>

definition calculate_output_size :: "point list \<Rightarrow> exn + (int \<times> int)" where
  "calculate_output_size quad_points =
     (case quad_points of
        [p_tl, p_tr, p_br, p_bl] \<Rightarrow>
          (let width_top = distance p_tl p_tr;
               width_bottom = distance p_bl p_br;
               width = py_int (max width_top width_bottom);
               height_left = distance p_tl p_bl;
               height_right = distance p_tr p_br;
               height = py_int (max height_left height_right)
           in Inr (max width 100, max height 100))
      | _ \<Rightarrow> Inl (Exception ''ValueError: cannot unpack quad_points into four values''))"

text \<open>
  The image libraries (OpenCV, Pillow) are outside the repository. Each group of library
  calls a source function makes is a field of \<open>imaging\<close>: it tells whether the calls raise
  (\<open>Some e\<close>) or go through (\<open>None\<close>), and what data they return where the source
  branches on it. \<open>use_opencv\<close> is the flag bound at construction.
\<close>

record imaging =
  use_opencv :: bool
  cv2_imread :: "string \<Rightarrow> bool"
  cv2_warp_write :: "string \<Rightarrow> point list \<Rightarrow> int \<times> int \<Rightarrow> string \<Rightarrow> exn option"
  pil_open :: "string \<Rightarrow> exn option"
  pil_transform_save :: "string \<Rightarrow> point list \<Rightarrow> int \<times> int \<Rightarrow> string \<Rightarrow> exn option"
  pil_rotate_save :: "string \<Rightarrow> int \<Rightarrow> string \<Rightarrow> exn option"
  cv2_hough_lines :: "string \<Rightarrow> exn + (real \<times> real) list option"
  cv2_rotate_write :: "string \<Rightarrow> real \<Rightarrow> string \<Rightarrow> exn option"
  pil_grayscale_save :: "string \<Rightarrow> string \<Rightarrow> exn option"
  cv2_bw_write :: "string \<Rightarrow> string \<Rightarrow> exn option"
  pil_bw_save :: "string \<Rightarrow> string \<Rightarrow> exn option"
  cv2_enhanced_write :: "string \<Rightarrow> string \<Rightarrow> exn option"
  pil_enhanced_save :: "string \<Rightarrow> string \<Rightarrow> exn option"
  pil_sanitize_save :: "string \<Rightarrow> string \<Rightarrow> exn option"

text \<open>The result of library calls that return nothing the source looks at.\<close>

definition returning :: "exn option \<Rightarrow> 'a \<Rightarrow> exn + 'a" where
  "returning r v = (case r of Some e \<Rightarrow> Inl e | None \<Rightarrow> Inr v)"

text \<open>\<open>try: return body  except Exception: return fallback\<close>.\<close>

definition try_except :: "exn + 'a \<Rightarrow> 'a \<Rightarrow> 'a" where
  "try_except body fallback = (case body of Inl e \<Rightarrow> fallback | Inr v \<Rightarrow> v)"

definition warp_opencv :: "imaging \<Rightarrow> string \<Rightarrow> point list \<Rightarrow> string \<Rightarrow> exn + string" where
  "warp_opencv lib image_path quad_points out_path =
     (if \<not> cv2_imread lib image_path
      then Inl (Exception (''Could not read image: '' @ image_path))
      else case calculate_output_size quad_points of
             Inl e \<Rightarrow> Inl e
           | Inr sz \<Rightarrow> returning (cv2_warp_write lib image_path quad_points sz out_path)
                        out_path)"

definition warp_pillow :: "imaging \<Rightarrow> string \<Rightarrow> point list \<Rightarrow> string \<Rightarrow> exn + string" where
  "warp_pillow lib image_path quad_points out_path =
     (case pil_open lib image_path of
        Some e \<Rightarrow> Inl e
      | None \<Rightarrow>
          (case calculate_output_size quad_points of
             Inl e \<Rightarrow> Inl e
           | Inr sz \<Rightarrow> returning (pil_transform_save lib image_path quad_points sz out_path)
                        out_path))"

text \<open>
  The public operations take the output path the pipeline always passes (\<open>out_path\<close>); the branch that
  derives a default name from the input path when none is given is not part of the model.
\<close>

definition warp_body :: "imaging \<Rightarrow> string \<Rightarrow> point list \<Rightarrow> string \<Rightarrow> exn + string" where
  "warp_body lib image_path quad_points out_path =
     (if use_opencv lib then warp_opencv lib image_path quad_points out_path
      else warp_pillow lib image_path quad_points out_path)"

definition warp :: "imaging \<Rightarrow> string \<Rightarrow> point list \<Rightarrow> string \<Rightarrow> string" where
  "warp lib image_path quad_points out_path =
     try_except (warp_body lib image_path quad_points out_path) image_path"

definition rotate_image_body :: "imaging \<Rightarrow> string \<Rightarrow> int \<Rightarrow> string \<Rightarrow> exn + string" where
  "rotate_image_body lib image_path degrees out_path =
     (let degrees = degrees mod 360 in
      if degrees = 0 then Inr image_path
      else returning (pil_rotate_save lib image_path degrees out_path) out_path)"

definition rotate_image :: "imaging \<Rightarrow> string \<Rightarrow> int \<Rightarrow> string \<Rightarrow> string" where
  "rotate_image lib image_path degrees out_path =
     try_except (rotate_image_body lib image_path degrees out_path) image_path"

text \<open>\<open>np.median\<close> of a non-empty list: the middle of the sorted values, or the mean of the
  two middle ones.\<close>

definition median :: "real list \<Rightarrow> real" where
  "median xs =
     (let s = sort xs; n = length s in
      if even n then (s ! (n div 2 - 1) + s ! (n div 2)) / 2 else s ! (n div 2))"

definition line_angles :: "(real \<times> real) list \<Rightarrow> real list" where
  "line_angles lines =
     filter (\<lambda>angle. - 45 < angle \<and> angle < 45)
       (map (\<lambda>(rho, theta). theta * 180 / pi - 90) (take 20 lines))"

definition deskew_opencv :: "imaging \<Rightarrow> string \<Rightarrow> string \<Rightarrow> exn + string" where
  "deskew_opencv lib image_path out_path =
     (if \<not> cv2_imread lib image_path then Inr image_path
      else case cv2_hough_lines lib image_path of
        Inl e \<Rightarrow> Inl e
      | Inr None \<Rightarrow> Inr image_path
      | Inr (Some lines) \<Rightarrow>
          if length lines = 0 then Inr image_path
          else let angles = line_angles lines in
            if angles = [] then Inr image_path
            else let median_angle = median angles in
              if \<bar>median_angle\<bar> < 0.5 \<or> \<bar>median_angle\<bar> > 15 then Inr image_path
              else returning (cv2_rotate_write lib image_path median_angle out_path)
                     out_path)"

definition deskew_body :: "imaging \<Rightarrow> string \<Rightarrow> string \<Rightarrow> exn + string" where
  "deskew_body lib image_path out_path =
     (if use_opencv lib then deskew_opencv lib image_path out_path else Inr image_path)"

definition deskew :: "imaging \<Rightarrow> string \<Rightarrow> string \<Rightarrow> string" where
  "deskew lib image_path out_path =
     try_except (deskew_body lib image_path out_path) image_path"

section \<open>ImageFilters.apply\_filter (filters.py) and sanitize\_image (exif\_sanitize.py)\<close>

definition apply_grayscale :: "imaging \<Rightarrow> string \<Rightarrow> string \<Rightarrow> exn + string" where
  "apply_grayscale lib image_path out_path =
     returning (pil_grayscale_save lib image_path out_path) out_path"

definition apply_bw_pillow :: "imaging \<Rightarrow> string \<Rightarrow> string \<Rightarrow> exn + string" where
  "apply_bw_pillow lib image_path out_path =
     returning (pil_bw_save lib image_path out_path) out_path"

definition apply_bw_opencv :: "imaging \<Rightarrow> string \<Rightarrow> string \<Rightarrow> exn + string" where
  "apply_bw_opencv lib image_path out_path =
     (if \<not> cv2_imread lib image_path then apply_bw_pillow lib image_path out_path
      else returning (cv2_bw_write lib image_path out_path) out_path)"

definition apply_black_white :: "imaging \<Rightarrow> string \<Rightarrow> string \<Rightarrow> exn + string" where
  "apply_black_white lib image_path out_path =
     (if use_opencv lib then apply_bw_opencv lib image_path out_path
      else apply_bw_pillow lib image_path out_path)"

definition apply_enhanced_pillow :: "imaging \<Rightarrow> string \<Rightarrow> string \<Rightarrow> exn + string" where
  "apply_enhanced_pillow lib image_path out_path =
     returning (pil_enhanced_save lib image_path out_path) out_path"

definition apply_enhanced_opencv :: "imaging \<Rightarrow> string \<Rightarrow> string \<Rightarrow> exn + string" where
  "apply_enhanced_opencv lib image_path out_path =
     (if \<not> cv2_imread lib image_path then apply_enhanced_pillow lib image_path out_path
      else returning (cv2_enhanced_write lib image_path out_path) out_path)"

definition apply_enhanced :: "imaging \<Rightarrow> string \<Rightarrow> string \<Rightarrow> exn + string" where
  "apply_enhanced lib image_path out_path =
     (if use_opencv lib then apply_enhanced_opencv lib image_path out_path
      else apply_enhanced_pillow lib image_path out_path)"

definition apply_filter_body ::
  "imaging \<Rightarrow> string \<Rightarrow> FilterType \<Rightarrow> string \<Rightarrow> exn + string" where
  "apply_filter_body lib image_path filter_type out_path =
     (case filter_type of
        ORIGINAL \<Rightarrow> Inr image_path
      | GRAYSCALE \<Rightarrow> apply_grayscale lib image_path out_path
      | BLACK_WHITE \<Rightarrow> apply_black_white lib image_path out_path
      | ENHANCED \<Rightarrow> apply_enhanced lib image_path out_path)"

definition apply_filter :: "imaging \<Rightarrow> string \<Rightarrow> FilterType \<Rightarrow> string \<Rightarrow> string" where
  "apply_filter lib image_path filter_type out_path =
     try_except (apply_filter_body lib image_path filter_type out_path) image_path"

definition sanitize_image_body :: "imaging \<Rightarrow> string \<Rightarrow> string \<Rightarrow> exn + string" where
  "sanitize_image_body lib image_path out_path =
     returning (pil_sanitize_save lib image_path out_path) out_path"

definition sanitize_image :: "imaging \<Rightarrow> string \<Rightarrow> string \<Rightarrow> string" where
  "sanitize_image lib image_path out_path =
     try_except (sanitize_image_body lib image_path out_path) image_path"

section \<open>ScannerPipeline.process\_capture (scanner\_pipeline.py)\<close>

text \<open>Decimal rendering of an integer, as an f-string does it.\<close>

definition digit_char :: "nat \<Rightarrow> char" where
  "digit_char d = ''0123456789'' ! d"

fun digits10 :: "nat \<Rightarrow> string" where
  "digits10 n =
     (if n < 10 then [digit_char n] else digits10 (n div 10) @ [digit_char (n mod 10)])"

declare digits10.simps [simp del]

definition str_int :: "int \<Rightarrow> string" where
  "str_int i = (if i < 0 then CHR ''-'' # digits10 (nat (- i)) else digits10 (nat i))"

text \<open>
  \<open>os.path.join(self.cache_path, f"<stem><timestamp>.jpg")\<close> with
  \<open>timestamp = int(time.time() * 1000)\<close>.
\<close>

definition stamp_path :: "string \<Rightarrow> string \<Rightarrow> real \<Rightarrow> string" where
  "stamp_path cache_path stem t =
     path_join cache_path (stem @ str_int (py_int (t * 1000)) @ ''.jpg'')"

text \<open>\<open>quad_points\<close> is an optional list; \<open>if quad_points:\<close> holds for a non-empty list.\<close>

definition quad_of :: "point list option \<Rightarrow> point list" where
  "quad_of quad_points = (case quad_points of None \<Rightarrow> [] | Some ps \<Rightarrow> ps)"

text \<open>
  The body of the \<open>try\<close> block. \<open>tm k\<close> is the value of the \<open>k\<close>-th call of \<open>time.time()\<close>
  during the run (\<open>tm 0\<close> is \<open>start_time\<close>); the body returns what it computed together
  with the number of clock readings made so far. The progress notifications, which only
  hand a message to the UI scheduler, are left out.
\<close>

definition process_capture_body ::
  "imaging \<Rightarrow> (nat \<Rightarrow> real) \<Rightarrow> string \<Rightarrow> string \<Rightarrow> point list option \<Rightarrow> FilterType \<Rightarrow> int
     \<Rightarrow> (exn + string) \<times> nat" where
  "process_capture_body lib tm cache_path image_path quad_points filter_type rotation =
     (let current_path = image_path;
          k = Suc 0;
          (current_path, k) =
            (if quad_of quad_points \<noteq> []
             then (warp lib current_path (quad_of quad_points)
                     (stamp_path cache_path ''warped_'' (tm k)), Suc k)
             else (current_path, k));
          (current_path, k) =
            (if rotation \<noteq> 0
             then (rotate_image lib current_path rotation
                     (stamp_path cache_path ''rotated_'' (tm k)), Suc k)
             else (current_path, k));
          (current_path, k) =
            (if quad_of quad_points \<noteq> []
             then (deskew lib current_path (stamp_path cache_path ''deskewed_'' (tm k)), Suc k)
             else (current_path, k));
          (current_path, k) =
            (if filter_type \<noteq> ORIGINAL
             then (apply_filter lib current_path filter_type
                     (stamp_path cache_path ''filtered_'' (tm k)), Suc k)
             else (current_path, k));
          current_path = sanitize_image lib current_path (stamp_path cache_path ''page_'' (tm k))
      in (Inr current_path, Suc k))"

definition process_capture ::
  "imaging \<Rightarrow> (nat \<Rightarrow> real) \<Rightarrow> string \<Rightarrow> string \<Rightarrow> point list option \<Rightarrow> FilterType \<Rightarrow> int
     \<Rightarrow> ProcessingResult" where
  "process_capture lib tm cache_path image_path quad_points filter_type rotation =
     (let result = ProcessingResult_default;
          start_time = tm 0;
          (body, k) = process_capture_body lib tm cache_path image_path quad_points
                        filter_type rotation;
          result = (case body of
                      Inr current_path \<Rightarrow> result\<lparr>success := True, output_path := current_path\<rparr>
                    | Inl e \<Rightarrow> result\<lparr>error_message := str_of_exn e\<rparr>)
      in result\<lparr>processing_time_ms := py_int ((tm k - start_time) * 1000)\<rparr>)"

section \<open>ScannerPipeline: the busy flag and the preview throttle\<close>

text \<open>
  The mutable fields of a pipeline instance, with the two things its methods hand to the
  outside: the calls scheduled on the UI clock (\<open>Clock.schedule_once\<close>) and the background
  threads started. Callbacks are values of a type \<open>'cb\<close>.
\<close>

record capture_request =
  req_image_path :: string
  req_quad_points :: "point list option"
  req_filter_type :: FilterType
  req_rotation :: int

datatype 'cb clock_event = Deliver 'cb ProcessingResult

datatype 'cb job =
    ProcessJob capture_request "'cb option" "'cb option"
  | DetectJob "8 word list" int int 'cb

record 'cb pipeline =
  is_processing :: bool
  last_preview_time :: real
  clock_queue :: "'cb clock_event list"
  started_threads :: "'cb job list"

definition pipeline_init :: "'cb pipeline" where
  "pipeline_init =
     \<lparr>is_processing = False, last_preview_time = 0, clock_queue = [], started_threads = []\<rparr>"

definition process_capture_async ::
  "'cb pipeline \<Rightarrow> capture_request \<Rightarrow> 'cb option \<Rightarrow> 'cb option \<Rightarrow> 'cb pipeline" where
  "process_capture_async s req progress_callback completion_callback =
     (if is_processing s
      then (case completion_callback of
              Some cb \<Rightarrow>
                s\<lparr>clock_queue := clock_queue s @
                    [Deliver cb (ProcessingResult_default\<lparr>error_message := ''Already processing''\<rparr>)]\<rparr>
            | None \<Rightarrow> s)
      else s\<lparr>is_processing := True,
              started_threads := started_threads s @
                [ProcessJob req progress_callback completion_callback]\<rparr>)"

text \<open>The function \<open>process\<close> that the started thread runs.\<close>

definition process_thread ::
  "imaging \<Rightarrow> (nat \<Rightarrow> real) \<Rightarrow> string \<Rightarrow> 'cb pipeline \<Rightarrow> capture_request \<Rightarrow> 'cb option
     \<Rightarrow> 'cb pipeline" where
  "process_thread lib tm cache_path s req completion_callback =
     (let result = process_capture lib tm cache_path (req_image_path req) (req_quad_points req)
                     (req_filter_type req) (req_rotation req);
          s = s\<lparr>is_processing := False\<rparr>
      in case completion_callback of
           Some cb \<Rightarrow> s\<lparr>clock_queue := clock_queue s @ [Deliver cb result]\<rparr>
         | None \<Rightarrow> s)"

definition PREVIEW_FRAME_INTERVAL :: real where
  "PREVIEW_FRAME_INTERVAL = 0.2"

text \<open>
  \<open>detect_document_preview\<close>, with the reading of \<open>time.time()\<close> as the argument \<open>now\<close>:
  the returned flag and the new state.
\<close>

definition detect_document_preview ::
  "'cb pipeline \<Rightarrow> real \<Rightarrow> 8 word list \<Rightarrow> int \<Rightarrow> int \<Rightarrow> 'cb \<Rightarrow> bool \<times> 'cb pipeline" where
  "detect_document_preview s now image_bytes width height callback =
     (let current_time = now in
      if current_time - last_preview_time s < PREVIEW_FRAME_INTERVAL then (False, s)
      else (True, s\<lparr>last_preview_time := current_time,
                     started_threads := started_threads s @
                       [DetectJob image_bytes width height callback]\<rparr>))"

text \<open>
  A sequence of calls on one instance, each with its clock reading: the readings at which
  a detection was started, in order.
\<close>

fun preview_runs :: "'cb pipeline \<Rightarrow> (real \<times> 8 word list \<times> int \<times> int \<times> 'cb) list \<Rightarrow> real list" where
  "preview_runs s [] = []"
| "preview_runs s ((now, image_bytes, width, height, callback) # calls) =
     (case detect_document_preview s now image_bytes width height callback of
        (started, s') \<Rightarrow> (if started then [now] else []) @ preview_runs s' calls)"

section \<open>QuadDetector (quad\_detect.py)\<close>

record QuadResult =
  detected :: bool
  points :: "point list option"
  confidence :: real
  frame_size :: "int \<times> int"

definition QuadResult_default :: QuadResult where
  "QuadResult_default =
     \<lparr>detected = False, points = None, confidence = 0, frame_size = (0, 0)\<rparr>"

subsection \<open>Corner ordering\<close>

text \<open>
  \<open>_order_points\<close> converts the points to float32 and adds and subtracts there. \<open>f32 n\<close>
  is the integer \<open>n\<close> rounded to the nearest float32 (24 significant bits, ties to even);
  it leaves every integer of magnitude below \<open>2^24\<close> as it is. Magnitudes beyond the
  largest finite float32 do not occur for pixel coordinates and are not distinguished.
\<close>

fun bit_length :: "nat \<Rightarrow> nat" where
  "bit_length n = (if n = 0 then 0 else Suc (bit_length (n div 2)))"

declare bit_length.simps [simp del]

definition f32 :: "int \<Rightarrow> int" where
  "f32 n =
     (let a = nat \<bar>n\<bar>;
          e = bit_length a - 24;
          q = a div 2 ^ e;
          r = a mod 2 ^ e;
          q' = (if 2 * r > 2 ^ e \<or> (2 * r = 2 ^ e \<and> odd q) then q + 1 else q)
      in sgn n * int (q' * 2 ^ e))"

text \<open>\<open>np.argmin\<close> and \<open>np.argmax\<close>: the first index at which the extreme value occurs.\<close>

definition argmin :: "int list \<Rightarrow> nat" where
  "argmin xs =
     (case xs of [] \<Rightarrow> 0 | x # r \<Rightarrow> length (takeWhile (\<lambda>v. v \<noteq> fold min r x) xs))"

definition argmax :: "int list \<Rightarrow> nat" where
  "argmax xs =
     (case xs of [] \<Rightarrow> 0 | x # r \<Rightarrow> length (takeWhile (\<lambda>v. v \<noteq> fold max r x) xs))"

definition point_sum :: "point \<Rightarrow> int" where
  "point_sum p = f32 (fst p + snd p)"

definition point_diff :: "point \<Rightarrow> int" where
  "point_diff p = f32 (snd p - fst p)"

text \<open>On an empty list \<open>pts.sum(axis=1)\<close> raises, the array being one-dimensional.\<close>

definition order_points :: "point list \<Rightarrow> exn + point list" where
  "order_points pts0 =
     (if pts0 = [] then Inl (Exception ''AxisError: axis 1 is out of bounds'')
      else
        let pts = map (\<lambda>(x, y). (f32 x, f32 y)) pts0;
            s = map point_sum pts;
            tl_idx = argmin s;
            br_idx = argmax s;
            d = map point_diff pts;
            tr_idx = argmin d;
            bl_idx = argmax d
        in Inr [pts ! tl_idx, pts ! tr_idx, pts ! br_idx, pts ! bl_idx])"

text \<open>
  Coordinates for which the float32 arithmetic of \<open>_order_points\<close> is exact, and the
  condition under which re-ordering is stable: corners that share the smallest or the
  largest value of a key are the same point.
\<close>

definition f32_exact :: "point list \<Rightarrow> bool" where
  "f32_exact ps = list_all (\<lambda>p. \<bar>fst p\<bar> < 2 ^ 23 \<and> \<bar>snd p\<bar> < 2 ^ 23) ps"

definition extremes_unique :: "(point \<Rightarrow> int) \<Rightarrow> point list \<Rightarrow> bool" where
  "extremes_unique key q =
     list_all (\<lambda>p. list_all (\<lambda>p'.
        key p = key p' \<and> (list_all (\<lambda>r. key p \<le> key r) q \<or> list_all (\<lambda>r. key r \<le> key p) q)
          \<longrightarrow> p = p') q) q"

subsection \<open>The OpenCV path\<close>

text \<open>
  What the OpenCV calls of \<open>_process_opencv\<close> return for an image: its original size, its
  size after the downscale, and for each contour found its area, the vertices of its
  polygon approximation and whether that polygon is convex.
\<close>

record cv_contour =
  c_area :: real
  c_approx :: "point list"
  c_convex :: bool

record cv_frame =
  f_original_size :: "int \<times> int"
  f_size :: "int \<times> int"
  f_contours :: "cv_contour list"

text \<open>A grayscale image: its size and the sequence \<open>getdata()\<close> returns, row by row.\<close>

record gray_image =
  im_width :: nat
  im_height :: nat
  im_data :: "nat \<Rightarrow> 8 word"

datatype cv_source = CvFile string | CvRGBA "8 word list" int int | CvRGB "8 word list" int int

datatype pil_source = PilFile string | PilBytes "8 word list"

text \<open>
  The library calls of the detector. \<open>cv2_imread_ok\<close>: \<open>cv2.imread\<close> returns an image
  (not None). \<open>cv2_cvtColor_rgba\<close>: the colour conversion of a reshaped RGBA buffer.
  \<open>cv2_contours\<close>: the OpenCV calls of \<open>_process_opencv\<close>. \<open>pil_image_open\<close>:
  \<open>Image.open\<close>, giving the size. \<open>pil_find_edges\<close>: resize to the given size (if any),
  \<open>convert('L')\<close> and \<open>filter(FIND_EDGES)\<close>. \<open>pil_open_gray\<close>: \<open>Image.open\<close> and
  \<open>convert('L')\<close>.
\<close>

record detector_lib =
  d_use_opencv :: bool
  cv2_imread_ok :: "string \<Rightarrow> bool"
  cv2_cvtColor_rgba :: "8 word list \<Rightarrow> int \<Rightarrow> int \<Rightarrow> exn option"
  cv2_contours :: "cv_source \<Rightarrow> exn + cv_frame"
  pil_image_open :: "pil_source \<Rightarrow> exn + (int \<times> int)"
  pil_find_edges :: "pil_source \<Rightarrow> (int \<times> int) option \<Rightarrow> exn + gray_image"
  pil_open_gray :: "string \<Rightarrow> exn + gray_image"

definition DOWNSCALE_WIDTH :: int where
  "DOWNSCALE_WIDTH = 960"

definition MIN_AREA_RATIO :: real where
  "MIN_AREA_RATIO = 0.1"

definition MAX_AREA_RATIO :: real where
  "MAX_AREA_RATIO = 0.95"

text \<open>
  The scale and the rescaled coordinates are computed in IEEE doubles, and the rounding
  decides the integer that \<open>int()\<close> returns, so it is modelled: a double is the rational
  number it denotes, and \<open>fl64 x\<close> is \<open>x\<close> rounded to the nearest double (53 significant
  bits, ties to even). \<open>double_shift x\<close> is the \<open>s\<close> with \<open>2^52 \<le> x * 2^s < 2^53\<close>.
  Subnormal and infinite results do not occur for frame sizes and are not distinguished.
\<close>

definition round_half_even :: "rat \<Rightarrow> int" where
  "round_half_even y =
     (let f = \<lfloor>y\<rfloor>; r = y - of_int f in
      if r < 1 / 2 then f else if 1 / 2 < r then f + 1 else if even f then f else f + 1)"

definition double_shift :: "rat \<Rightarrow> int" where
  "double_shift x =
     (if 1 \<le> x then 53 - int (bit_length (nat \<lfloor>x\<rfloor>))
      else 52 + int (bit_length (nat (\<lceil>1 / x\<rceil> - 1))))"

definition pow2 :: "int \<Rightarrow> rat" where
  "pow2 s = (if 0 \<le> s then 2 ^ nat s else 1 / 2 ^ nat (- s))"

definition fl64 :: "rat \<Rightarrow> rat" where
  "fl64 x =
     (if x = 0 then 0
      else let a = \<bar>x\<bar>; s = double_shift a; m = round_half_even (a * pow2 s)
           in sgn x * of_int m / pow2 s)"

text \<open>\<open>int(x)\<close> on a double.\<close>

definition double_to_int :: "rat \<Rightarrow> int" where
  "double_to_int x = (if 0 \<le> x then \<lfloor>x\<rfloor> else \<lceil>x\<rceil>)"

text \<open>
  \<open>scale = 1.0\<close>, or \<open>DOWNSCALE_WIDTH / original_width\<close> (the correctly rounded quotient
  of two integers) for a wide frame; \<open>int(v / scale)\<close> for an integer coordinate \<open>v\<close>.
\<close>

definition downscale :: "int \<Rightarrow> rat" where
  "downscale original_width =
     (if original_width > DOWNSCALE_WIDTH
      then fl64 (of_int DOWNSCALE_WIDTH / of_int original_width)
      else 1)"

definition unscale :: "rat \<Rightarrow> int \<Rightarrow> int" where
  "unscale scale v = double_to_int (fl64 (of_int v / scale))"

definition best_quad_step ::
  "real \<Rightarrow> real \<Rightarrow> cv_contour \<Rightarrow> point list option \<times> real \<Rightarrow> point list option \<times> real" where
  "best_quad_step min_area max_area contour best =
     (let area = c_area contour in
      if area < min_area \<or> area > max_area then best
      else if length (c_approx contour) = 4 \<and> area > snd best \<and> c_convex contour
      then (Some (c_approx contour), area)
      else best)"

definition process_opencv :: "cv_frame \<Rightarrow> exn + QuadResult" where
  "process_opencv fr =
     (let (original_width, original_height) = f_original_size fr;
          scale = downscale original_width;
          (width, height) = f_size fr;
          frame_area = of_int (width * height);
          min_area = frame_area * MIN_AREA_RATIO;
          max_area = frame_area * MAX_AREA_RATIO;
          (best_quad, best_area) =
             fold (best_quad_step min_area max_area) (f_contours fr) (None, 0)
      in case best_quad of
           Some quad \<Rightarrow>
             (case order_points (map (\<lambda>(x, y). (unscale scale x, unscale scale y)) quad) of
                Inl e \<Rightarrow> Inl e
              | Inr pts \<Rightarrow>
                  Inr \<lparr>detected = True, points = Some pts,
                       confidence = best_area / frame_area,
                       frame_size = (original_width, original_height)\<rparr>)
         | None \<Rightarrow>
             Inr (QuadResult_default\<lparr>frame_size := (original_width, original_height)\<rparr>))"

definition detect_opencv :: "detector_lib \<Rightarrow> string \<Rightarrow> exn + QuadResult" where
  "detect_opencv lib image_path =
     (if \<not> cv2_imread_ok lib image_path then Inr QuadResult_default
      else case cv2_contours lib (CvFile image_path) of
             Inl e \<Rightarrow> Inl e
           | Inr fr \<Rightarrow> process_opencv fr)"

text \<open>
  \<open>_detect_opencv_bytes\<close>: \<open>reshape\<close> to \<open>(height, width, channels)\<close> raises for a negative
  dimension, and the bare \<open>except\<close> around the reshape and the colour conversion returns
  "not detected".
\<close>

definition detect_opencv_bytes ::
  "detector_lib \<Rightarrow> 8 word list \<Rightarrow> int \<Rightarrow> int \<Rightarrow> exn + QuadResult" where
  "detect_opencv_bytes lib image_bytes width height =
     (if int (length image_bytes) = width * height * 4 then
        (if height < 0 \<or> width < 0 then Inr QuadResult_default
         else case cv2_cvtColor_rgba lib image_bytes width height of
                Some e \<Rightarrow> Inr QuadResult_default
              | None \<Rightarrow>
                  (case cv2_contours lib (CvRGBA image_bytes width height) of
                     Inl e \<Rightarrow> Inl e
                   | Inr fr \<Rightarrow> process_opencv fr))
      else if int (length image_bytes) = width * height * 3 then
        (if height < 0 \<or> width < 0 then Inr QuadResult_default
         else case cv2_contours lib (CvRGB image_bytes width height) of
                Inl e \<Rightarrow> Inl e
              | Inr fr \<Rightarrow> process_opencv fr)
      else Inr QuadResult_default)"

subsection \<open>The Pillow fallback\<close>

text \<open>\<open>Image.point(f)\<close> on a grayscale image.\<close>

definition point_map :: "(8 word \<Rightarrow> 8 word) \<Rightarrow> gray_image \<Rightarrow> gray_image" where
  "point_map f img = img\<lparr>im_data := (\<lambda>i. f (im_data img i))\<rparr>"

text \<open>
  The state of the two nested loops of \<open>_find_content_bbox\<close>, and the body of the inner
  loop at row \<open>y\<close> and column \<open>x\<close>.
\<close>

record scan =
  s_min_x :: int
  s_min_y :: int
  s_max_x :: int
  s_max_y :: int
  s_edge_count :: nat

definition scan_pixel :: "gray_image \<Rightarrow> nat \<times> nat \<Rightarrow> scan \<Rightarrow> scan" where
  "scan_pixel img yx st =
     (let y = fst yx; x = snd yx in
      if unat (im_data img (y * im_width img + x)) > 128
      then \<lparr>s_min_x = min (s_min_x st) (int x),
            s_min_y = min (s_min_y st) (int y),
            s_max_x = max (s_max_x st) (int x),
            s_max_y = max (s_max_y st) (int y),
            s_edge_count = s_edge_count st + 1\<rparr>
      else st)"

text \<open>
  The comparison \<open>box_width < width * 0.2\<close> is made on doubles in the source; for an
  integer box width and frame width it has the same outcome as the exact comparison
  written here.
\<close>

definition find_content_bbox :: "gray_image \<Rightarrow> (int \<times> int \<times> int \<times> int) option" where
  "find_content_bbox edges_img =
     (let width = int (im_width edges_img);
          height = int (im_height edges_img);
          st = fold (scan_pixel edges_img)
                 (List.product [0..<im_height edges_img] [0..<im_width edges_img])
                 \<lparr>s_min_x = width, s_min_y = height, s_max_x = 0, s_max_y = 0,
                  s_edge_count = 0\<rparr>
      in if s_edge_count st < 100 then None
         else
           let margin = 10;
               min_x = max 0 (s_min_x st - margin);
               min_y = max 0 (s_min_y st - margin);
               max_x = min (width - 1) (s_max_x st + margin);
               max_y = min (height - 1) (s_max_y st + margin);
               box_width = max_x - min_x;
               box_height = max_y - min_y
           in if (of_int box_width :: real) < of_int width * 0.2
                 \<or> (of_int box_height :: real) < of_int height * 0.2
              then None
              else Some (min_x, min_y, max_x, max_y))"

definition edge_threshold :: "8 word \<Rightarrow> 8 word" where
  "edge_threshold x = (if unat x > 30 then 255 else 0)"

definition process_pillow :: "detector_lib \<Rightarrow> pil_source \<Rightarrow> int \<times> int \<Rightarrow> exn + QuadResult" where
  "process_pillow lib src original_size =
     (let (original_width, original_height) = original_size;
          scale = downscale original_width;
          resized =
            (if original_width > DOWNSCALE_WIDTH
             then Some (double_to_int (fl64 (of_int original_width * scale)),
                        double_to_int (fl64 (of_int original_height * scale)))
             else None)
      in case pil_find_edges lib src resized of
           Inl e \<Rightarrow> Inl e
         | Inr raw_edges \<Rightarrow>
             (let edges = point_map edge_threshold raw_edges in
              case find_content_bbox edges of
                Some (x1, y1, x2, y2) \<Rightarrow>
                  Inr \<lparr>detected = True,
                       points = Some [(unscale scale x1, unscale scale y1),
                                      (unscale scale x2, unscale scale y1),
                                      (unscale scale x2, unscale scale y2),
                                      (unscale scale x1, unscale scale y2)],
                       confidence = 0.5,
                       frame_size = (original_width, original_height)\<rparr>
              | None \<Rightarrow>
                  Inr (QuadResult_default\<lparr>frame_size := (original_width, original_height)\<rparr>)))"

definition detect_pillow_source :: "detector_lib \<Rightarrow> pil_source \<Rightarrow> QuadResult" where
  "detect_pillow_source lib src =
     try_except
       (case pil_image_open lib src of
          Inl e \<Rightarrow> Inl e
        | Inr original_size \<Rightarrow> process_pillow lib src original_size)
       QuadResult_default"

definition detect_pillow :: "detector_lib \<Rightarrow> string \<Rightarrow> QuadResult" where
  "detect_pillow lib image_path = detect_pillow_source lib (PilFile image_path)"

definition detect_pillow_bytes :: "detector_lib \<Rightarrow> 8 word list \<Rightarrow> int \<Rightarrow> int \<Rightarrow> QuadResult" where
  "detect_pillow_bytes lib image_bytes width height =
     detect_pillow_source lib (PilBytes image_bytes)"

subsection \<open>The entry points\<close>

definition detect_body :: "detector_lib \<Rightarrow> string \<Rightarrow> exn + QuadResult" where
  "detect_body lib image_path =
     (if d_use_opencv lib then detect_opencv lib image_path
      else Inr (detect_pillow lib image_path))"

definition detect :: "detector_lib \<Rightarrow> string \<Rightarrow> QuadResult" where
  "detect lib image_path = try_except (detect_body lib image_path) QuadResult_default"

definition detect_from_bytes_body ::
  "detector_lib \<Rightarrow> 8 word list \<Rightarrow> int \<Rightarrow> int \<Rightarrow> exn + QuadResult" where
  "detect_from_bytes_body lib image_bytes width height =
     (if d_use_opencv lib then detect_opencv_bytes lib image_bytes width height
      else Inr (detect_pillow_bytes lib image_bytes width height))"

definition detect_from_bytes :: "detector_lib \<Rightarrow> 8 word list \<Rightarrow> int \<Rightarrow> int \<Rightarrow> QuadResult" where
  "detect_from_bytes lib image_bytes width height =
     try_except (detect_from_bytes_body lib image_bytes width height) QuadResult_default"

subsection \<open>Brightness\<close>

text \<open>\<open>crop((left, upper, right, lower)).getdata()\<close> for a box inside the image.\<close>

definition crop_data :: "gray_image \<Rightarrow> nat \<times> nat \<times> nat \<times> nat \<Rightarrow> 8 word list" where
  "crop_data img box =
     (case box of (left, upper, right, lower) \<Rightarrow>
        map (\<lambda>(y, x). im_data img (y * im_width img + x))
          (List.product [upper..<lower] [left..<right]))"

definition estimate_brightness_body :: "detector_lib \<Rightarrow> string \<Rightarrow> exn + real" where
  "estimate_brightness_body lib image_path =
     (case pil_open_gray lib image_path of
        Inl e \<Rightarrow> Inl e
      | Inr gray \<Rightarrow>
          (let width = im_width gray;
               height = im_height gray;
               cx = width div 2;
               cy = height div 2;
               sample_size = min 200 (min (width div 2) (height div 2));
               pixels = crop_data gray (cx - sample_size, cy - sample_size,
                                        cx + sample_size, cy + sample_size)
           in Inr (if pixels \<noteq> []
                   then of_nat (sum_list (map unat pixels)) / of_nat (length pixels)
                   else 128)))"

definition estimate_brightness :: "detector_lib \<Rightarrow> string \<Rightarrow> real" where
  "estimate_brightness lib image_path =
     try_except (estimate_brightness_body lib image_path) 128"

definition is_low_light :: "detector_lib \<Rightarrow> string \<Rightarrow> real \<Rightarrow> bool" where
  "is_low_light lib image_path threshold = (estimate_brightness lib image_path < threshold)"

text \<open>\<open>ScannerPipeline.is_low_light\<close> calls the detector with the default threshold 50.\<close>

definition pipeline_is_low_light :: "detector_lib \<Rightarrow> string \<Rightarrow> bool" where
  "pipeline_is_low_light lib image_path = is_low_light lib image_path 50"

subsection \<open>The fallback detection in the words of the specification\<close>

text \<open>The test of the inner loop of \<open>_find_content_bbox\<close> at a position (row, column).\<close>

definition is_edge :: "gray_image \<Rightarrow> nat \<times> nat \<Rightarrow> bool" where
  "is_edge img yx = (unat (im_data img (fst yx * im_width img + snd yx)) > 128)"


text \<open>
  The edge pixels of the processed frame: the positions (row, column) whose value in the
  edge-filtered image exceeds the binary threshold 30. The margin-expanded bounding box
  of a list of positions in a frame of the given width and height.
\<close>

definition edge_pixels :: "gray_image \<Rightarrow> (nat \<times> nat) list" where
  "edge_pixels raw =
     filter (\<lambda>(y, x). unat (im_data raw (y * im_width raw + x)) > 30)
       (List.product [0..<im_height raw] [0..<im_width raw])"

definition margin_box :: "int \<Rightarrow> int \<Rightarrow> (nat \<times> nat) list \<Rightarrow> int \<times> int \<times> int \<times> int" where
  "margin_box width height ps =
     (max 0 (Min (set (map (int \<circ> snd) ps)) - 10),
      max 0 (Min (set (map (int \<circ> fst) ps)) - 10),
      min (width - 1) (Max (set (map (int \<circ> snd) ps)) + 10),
      min (height - 1) (Max (set (map (int \<circ> fst) ps)) + 10))"

section \<open>Concrete libraries for evaluation\<close>



text \<open>
  A detector library that reads one file, \<open>/doc.jpg\<close>, and one byte buffer (standing
  for the content of an encoded image file), and fails on everything else: the edge image it returns is edge everywhere, the grayscale
  image is uniformly dark, and OpenCV finds one convex four-cornered contour.
\<close>

definition sample_edges :: gray_image where
  "sample_edges = \<lparr>im_width = 10, im_height = 10, im_data = (\<lambda>i. 255)\<rparr>"

definition sample_gray :: gray_image where
  "sample_gray = \<lparr>im_width = 4, im_height = 4, im_data = (\<lambda>i. 40)\<rparr>"

definition sample_frame :: cv_frame where
  "sample_frame =
     \<lparr>f_original_size = (600, 800), f_size = (600, 800),
      f_contours = [\<lparr>c_area = 240000,
                     c_approx = [(100, 100), (100, 700), (500, 700), (500, 100)],
                     c_convex = True\<rparr>]\<rparr>"

definition sample_bytes :: "8 word list" where
  "sample_bytes = [137, 80, 78, 71]"

definition sample_detector :: "bool \<Rightarrow> detector_lib" where
  "sample_detector cv =
     \<lparr>d_use_opencv = cv,
      cv2_imread_ok = (\<lambda>p. p = ''/doc.jpg''),
      cv2_cvtColor_rgba = (\<lambda>_ _ _. None),
      cv2_contours = (\<lambda>src. if src = CvFile ''/doc.jpg'' then Inr sample_frame
                             else Inl (Exception ''cv2.error'')),
      pil_image_open = (\<lambda>src. if src = PilFile ''/doc.jpg'' \<or> src = PilBytes sample_bytes
                               then Inr (10, 10)
                               else Inl (Exception ''UnidentifiedImageError'')),
      pil_find_edges = (\<lambda>_ _. Inr sample_edges),
      pil_open_gray = (\<lambda>p. if p = ''/doc.jpg'' then Inr sample_gray
                            else Inl (Exception ''FileNotFoundError''))\<rparr>"

section \<open>Theorems\<close>

lemma cleanup_keeps_keep_paths:
  "p \<in> set ks \<Longrightarrow> p \<notin> set (cleanup_temp_files cache_path d (Some ks))"
  by (auto simp: cleanup_temp_files_def split: sum.splits)

lemma cleanup_removed_iff:
  "p \<in> set (cleanup_temp_files cache_path d keep) \<longleftrightarrow>
     (\<exists>names. listing d = Inr names
        \<and> (\<exists>f\<in>set names. p = path_join cache_path f \<and> is_temp_name f
              \<and> p \<notin> (case keep of None \<Rightarrow> {} | Some ks \<Rightarrow> set ks) \<and> removable d p))"
  by (cases "listing d"; cases keep) (auto simp: cleanup_temp_files_def)

text \<open>
  C2. The thumbnail of an intermediate file, \<open>thumb_warped_1.jpg\<close>, starts with none of
  the five stage prefixes, yet \<open>cleanup_temp_files\<close> with no path to keep removes it: the
  source tests the markers with \<open>in\<close>, anywhere in the name.
\<close>

theorem cleanup_temp_files_removes_unprefixed:
  "cleanup_temp_files ''/cache''
      \<lparr>listing = Inr [''thumb_warped_1.jpg'', ''page_1.jpg''], removable = (\<lambda>_. True)\<rparr> None
     = [''/cache/thumb_warped_1.jpg'']
   \<and> \<not> has_temp_prefix ''thumb_warped_1.jpg''"
  by (simp add: cleanup_temp_files_def is_temp_name_def has_temp_prefix_def temp_markers_def
      path_join_def)

subsection \<open>process\_capture\<close>

lemma quad_size: "calculate_output_size [(0,0),(200,0),(200,300),(0,300)] = Inr (200, 300)"
  by (simp add: calculate_output_size_def distance_def py_int_def)
















subsection \<open>Output size of the rectified image\<close>

lemma floor_sqrt_eq:
  assumes "0 \<le> k" "k\<^sup>2 \<le> n" "n < (k + 1)\<^sup>2"
  shows "\<lfloor>sqrt (of_int n)\<rfloor> = k"
proof (rule floor_unique)
  have "(of_int k :: real)\<^sup>2 \<le> of_int n"
    using assms(2) by (metis of_int_le_iff of_int_power)
  then show "of_int k \<le> sqrt (of_int n)"
    using assms(1) by (simp add: real_le_rsqrt)
  have "(of_int n :: real) < (of_int k + 1)\<^sup>2"
    using assms(3) by (metis of_int_less_iff of_int_power of_int_add of_int_1)
  then show "sqrt (of_int n) < of_int k + 1"
    using assms(1) by (simp add: real_less_lsqrt)
qed

lemma distance_nonneg: "0 \<le> distance a b"
  by (simp add: distance_def)

lemma skew_quad_top: "distance (0,0) (150,15) = sqrt 22725"  by (simp add: distance_def)
lemma skew_quad_bottom: "distance (0,300) (150,315) = sqrt 22725"  by (simp add: distance_def)
lemma skew_quad_left: "distance (0,0) (0,300) = 300"  by (simp add: distance_def)
lemma skew_quad_right: "distance (150,15) (150,315) = 300"  by (simp add: distance_def)

lemma floor_sqrt_22725: "\<lfloor>sqrt 22725\<rfloor> = 150"
  using floor_sqrt_eq [of 150 22725] by simp

lemma round_sqrt_22725: "round (sqrt 22725) = 151"
proof -
  have "\<lfloor>sqrt 22725 + 1/2\<rfloor> = 151"
  proof (rule floor_unique)
    have "(301/2)\<^sup>2 \<le> (22725::real)" by (simp add: power2_eq_square)
    then have "301/2 \<le> sqrt 22725" by (rule real_le_rsqrt)
    then show "of_int 151 \<le> sqrt 22725 + 1/2" by simp
    have "(22725::real) < (303/2)\<^sup>2" by (simp add: power2_eq_square)
    then have "sqrt 22725 < 303/2" by (intro real_less_lsqrt) simp_all
    then show "sqrt 22725 + 1/2 < of_int 151 + 1" by simp
  qed
  then show ?thesis by (simp add: round_def)
qed

text \<open>
  C4 (as amended). For a quad \<open>[TL, TR, BR, BL]\<close> the output width is the integer part
  (\<open>int()\<close>, truncation) of the longer of the top and bottom edges and the height the
  integer part of the longer of the left and right edges, each raised to at least 100;
  the quad \<open>[(0,0),(200,0),(200,300),(0,300)]\<close> gives exactly 200 by 300.
\<close>

theorem calculate_output_size_truncates:
  "calculate_output_size [a, b, c, d]
     = Inr (max \<lfloor>max (distance a b) (distance d c)\<rfloor> 100,
            max \<lfloor>max (distance a d) (distance b c)\<rfloor> 100)
   \<and> calculate_output_size [(0,0),(200,0),(200,300),(0,300)] = Inr (200, 300)"
proof (intro conjI)
  show "calculate_output_size [a, b, c, d]
     = Inr (max \<lfloor>max (distance a b) (distance d c)\<rfloor> 100,
            max \<lfloor>max (distance a d) (distance b c)\<rfloor> 100)"
    by (simp add: calculate_output_size_def py_int_def Let_def distance_nonneg max.coboundedI1)
  show "calculate_output_size [(0,0),(200,0),(200,300),(0,300)] = Inr (200, 300)"
    by (rule quad_size)
qed

text \<open>
  C4 as stated fails: the source truncates where the claim rounds. The top and bottom edges
  of this quad are about 150.75 long: rounding gives 151, the code 150.
\<close>

theorem calculate_output_size_not_rounded:
  "calculate_output_size [(0,0),(150,15),(150,315),(0,300)] = Inr (150, 300)
   \<and> round (max (distance (0,0) (150,15)) (distance (0,300) (150,315))) = 151"
  by (simp add: calculate_output_size_def Let_def skew_quad_top skew_quad_bottom skew_quad_left skew_quad_right
      py_int_def floor_sqrt_22725 round_sqrt_22725)


subsection \<open>Deskew\<close>








subsection \<open>The busy flag\<close>

text \<open>
  C8. When the busy flag is set, \<open>process_capture_async\<close> only schedules, for a given
  completion callback, the delivery of a result with \<open>success\<close> false and the message
  "Already processing"; it starts no thread and leaves the flag and every other field of
  the pipeline as they were, so the operation in flight is neither queued behind nor
  touched.
\<close>

theorem process_capture_async_busy:
  "is_processing s \<Longrightarrow>
     process_capture_async s req progress_cb (Some cb)
       = s\<lparr>clock_queue := clock_queue s @
            [Deliver cb \<lparr>success = False, output_path = [],
                          error_message = ''Already processing'', processing_time_ms = 0\<rparr>]\<rparr>
     \<and> process_capture_async s req progress_cb None = s
     \<and> started_threads (process_capture_async s req progress_cb completion_cb) = started_threads s
     \<and> is_processing (process_capture_async s req progress_cb completion_cb)
     \<and> last_preview_time (process_capture_async s req progress_cb completion_cb)
         = last_preview_time s"
  by (simp add: process_capture_async_def ProcessingResult_default_def split: option.splits)

theorem process_capture_async_busy_witness:
  "is_processing ((pipeline_init :: nat pipeline)\<lparr>is_processing := True\<rparr>)
   \<and> process_capture_async (pipeline_init\<lparr>is_processing := True\<rparr>)
        \<lparr>req_image_path = ''/in.jpg'', req_quad_points = None, req_filter_type = ORIGINAL,
           req_rotation = 0\<rparr> None (Some (7::nat))
      = \<lparr>is_processing = True, last_preview_time = 0,
         clock_queue = [Deliver 7 \<lparr>success = False, output_path = [],
                          error_message = ''Already processing'', processing_time_ms = 0\<rparr>],
         started_threads = []\<rparr>"
  using process_capture_async_busy [of "(pipeline_init :: nat pipeline)\<lparr>is_processing := True\<rparr>"
      "\<lparr>req_image_path = ''/in.jpg'', req_quad_points = None, req_filter_type = ORIGINAL,
           req_rotation = 0\<rparr>" None 7 None]
  by (simp add: pipeline_init_def)

subsection \<open>The preview throttle\<close>

lemma preview_runs_after_last:
  "a \<in> set (preview_runs s calls) \<Longrightarrow> last_preview_time s + PREVIEW_FRAME_INTERVAL \<le> a"
proof (induction calls arbitrary: s)
  case Nil
  then show ?case by simp
next
  case (Cons c calls)
  obtain now b w h cb where c: "c = (now, b, w, h, cb)" by (cases c) auto
  show ?case
  proof (cases "now - last_preview_time s < PREVIEW_FRAME_INTERVAL")
    case True
    with Cons.prems c have "a \<in> set (preview_runs s calls)"
      by (simp add: detect_document_preview_def)
    then show ?thesis by (rule Cons.IH)
  next
    case False
    let ?s' = "s\<lparr>last_preview_time := now,
                  started_threads := started_threads s @ [DetectJob b w h cb]\<rparr>"
    from False Cons.prems c have "a = now \<or> a \<in> set (preview_runs ?s' calls)"
      by (simp add: detect_document_preview_def)
    then show ?thesis
    proof
      assume "a = now" with False show ?thesis by simp
    next
      assume "a \<in> set (preview_runs ?s' calls)"
      then have "last_preview_time ?s' + PREVIEW_FRAME_INTERVAL \<le> a" by (rule Cons.IH)
      with False show ?thesis by (simp add: PREVIEW_FRAME_INTERVAL_def)
    qed
  qed
qed

lemma preview_runs_spaced:
  "sorted_wrt (\<lambda>a b. a + PREVIEW_FRAME_INTERVAL \<le> b) (preview_runs s calls)"
proof (induction calls arbitrary: s)
  case Nil
  then show ?case by simp
next
  case (Cons c calls)
  obtain now b w h cb where c: "c = (now, b, w, h, cb)" by (cases c) auto
  show ?case
    using Cons.IH preview_runs_after_last
    by (fastforce simp: c detect_document_preview_def)
qed

text \<open>
  C9. A call of \<open>detect_document_preview\<close> whose clock reading is less than 0.2 seconds
  after the last accepted one returns False and leaves the pipeline unchanged (no thread
  is started, nothing is queued); so in any sequence of calls on one instance, the readings
  at which detections were started are pairwise at least 0.2 seconds apart.
\<close>

theorem preview_throttle:
  "(now - last_preview_time s < 0.2 \<longrightarrow>
      detect_document_preview s now image_bytes width height callback = (False, s))
   \<and> sorted_wrt (\<lambda>a b. a + 0.2 \<le> b) (preview_runs s calls)"
  using preview_runs_spaced [of s calls]
  by (simp add: detect_document_preview_def PREVIEW_FRAME_INTERVAL_def)

theorem preview_throttle_witness:
  "(100.1 :: real) - last_preview_time ((pipeline_init :: nat pipeline)\<lparr>last_preview_time := 100\<rparr>) < 0.2
   \<and> detect_document_preview ((pipeline_init :: nat pipeline)\<lparr>last_preview_time := 100\<rparr>)
        100.1 [] 0 0 2
        = (False, pipeline_init\<lparr>last_preview_time := 100\<rparr>)
   \<and> preview_runs ((pipeline_init :: nat pipeline)\<lparr>last_preview_time := 100\<rparr>)
        [(100.1, [], 0, 0, 2), (100.25, [], 0, 0, 3), (100.3, [], 0, 0, 4),
         (100.45, [], 0, 0, 5)] = [100.25, 100.45]"
  using preview_throttle [of "100.1" "(pipeline_init :: nat pipeline)\<lparr>last_preview_time := 100\<rparr>"
     "[]" 0 0 2 "[(100.1, [], 0, 0, 2), (100.25, [], 0, 0, 3), (100.3, [], 0, 0, 4),
         (100.45, [], 0, 0, 5)]"]
  by (simp add: pipeline_init_def detect_document_preview_def PREVIEW_FRAME_INTERVAL_def)


subsection \<open>Detector: brightness\<close>

lemma sample_detector_fields:
  "d_use_opencv (sample_detector cv) = cv"
  "cv2_imread_ok (sample_detector cv) = (\<lambda>p. p = ''/doc.jpg'')"
  "cv2_cvtColor_rgba (sample_detector cv) = (\<lambda>_ _ _. None)"
  "cv2_contours (sample_detector cv) = (\<lambda>src. if src = CvFile ''/doc.jpg'' then Inr sample_frame
                             else Inl (Exception ''cv2.error''))"
  "pil_image_open (sample_detector cv) = (\<lambda>src. if src = PilFile ''/doc.jpg'' \<or> src = PilBytes sample_bytes
                               then Inr (10, 10)
                               else Inl (Exception ''UnidentifiedImageError''))"
  "pil_find_edges (sample_detector cv) = (\<lambda>_ _. Inr sample_edges)"
  "pil_open_gray (sample_detector cv) = (\<lambda>p. if p = ''/doc.jpg'' then Inr sample_gray
                            else Inl (Exception ''FileNotFoundError''))"
  by (simp_all add: sample_detector_def)

lemma sum_bytes_le: "sum_list (map unat (ps :: 8 word list)) \<le> 255 * length ps"
proof (induction ps)
  case Nil
  then show ?case by simp
next
  case (Cons p ps)
  have "unat p < 2 ^ LENGTH(8)" by (rule unsigned_less)
  then have "unat p \<le> 255" by simp
  with Cons show ?case by simp
qed

lemma mean_bytes_le: "ps \<noteq> [] \<Longrightarrow>
   (of_nat (sum_list (map unat (ps :: 8 word list))) :: real) / of_nat (length ps) \<le> 255"
proof -
  assume "ps \<noteq> []"
  then have pos: "0 < (of_nat (length ps) :: real)" by simp
  have "(of_nat (sum_list (map unat ps)) :: real) \<le> of_nat (255 * length ps)"
    using sum_bytes_le [of ps] of_nat_le_iff by blast
  then have "(of_nat (sum_list (map unat ps)) :: real) \<le> 255 * of_nat (length ps)" by simp
  with pos show ?thesis by (simp add: pos_divide_le_eq)
qed

lemma brightness_body_range:
  "estimate_brightness_body lib p = Inr b \<Longrightarrow> 0 \<le> b \<and> b \<le> 255"
proof -
  assume a: "estimate_brightness_body lib p = Inr b"
  then obtain gray where g: "pil_open_gray lib p = Inr gray"
    by (cases "pil_open_gray lib p") (simp_all add: estimate_brightness_body_def)
  define pixels where "pixels = crop_data gray
     (im_width gray div 2 - min 200 (min (im_width gray div 2) (im_height gray div 2)),
      im_height gray div 2 - min 200 (min (im_width gray div 2) (im_height gray div 2)),
      im_width gray div 2 + min 200 (min (im_width gray div 2) (im_height gray div 2)),
      im_height gray div 2 + min 200 (min (im_width gray div 2) (im_height gray div 2)))"
  have b: "b = (if pixels \<noteq> []
                   then of_nat (sum_list (map unat pixels)) / of_nat (length pixels)
                   else 128)"
    using a unfolding estimate_brightness_body_def g Let_def pixels_def
    by (simp only: sum.case sum.inject)
  show ?thesis
  proof (cases "pixels = []")
    case True
    with b show ?thesis by simp
  next
    case False
    with b mean_bytes_le [OF False] show ?thesis by simp
  qed
qed


lemma sample_gray_pixels:
  "crop_data sample_gray (0, 0, 4, 4) = replicate 16 40"
  by code_simp

lemma sample_gray_brightness: "estimate_brightness (sample_detector False) ''/doc.jpg'' = 40"
proof -
  have "estimate_brightness_body (sample_detector False) ''/doc.jpg''
          = Inr (if crop_data sample_gray (0, 0, 4, 4) \<noteq> []
                 then of_nat (sum_list (map unat (crop_data sample_gray (0, 0, 4, 4))))
                        / of_nat (length (crop_data sample_gray (0, 0, 4, 4)))
                 else 128)"
    by (simp add: estimate_brightness_body_def sample_detector_fields Let_def sample_gray_def)
  then show ?thesis
    by (simp add: estimate_brightness_def try_except_def sample_gray_pixels sum_list_replicate)
qed

text \<open>
  C10. \<open>estimate_brightness\<close> returns a value between 0 and 255 for every path; when the
  body fails, in particular when the image cannot be opened or decoded, it returns 128;
  \<open>is_low_light\<close> holds exactly when the estimate is below the threshold (50 for the
  pipeline), so an unreadable image is reported as not low-light.
\<close>

theorem estimate_brightness_total:
  "0 \<le> estimate_brightness lib p \<and> estimate_brightness lib p \<le> 255
   \<and> (estimate_brightness_body lib p = Inl e \<longrightarrow>
         estimate_brightness lib p = 128 \<and> \<not> pipeline_is_low_light lib p)
   \<and> (pil_open_gray lib p = Inl e \<longrightarrow> estimate_brightness_body lib p = Inl e)
   \<and> pipeline_is_low_light lib p = (estimate_brightness lib p < 50)
   \<and> is_low_light lib p threshold = (estimate_brightness lib p < threshold)"
proof -
  have range: "0 \<le> estimate_brightness lib p \<and> estimate_brightness lib p \<le> 255"
  proof (cases "estimate_brightness_body lib p")
    case (Inl a)
    then show ?thesis by (simp add: estimate_brightness_def try_except_def)
  next
    case (Inr b)
    with brightness_body_range [OF Inr] show ?thesis
      by (simp add: estimate_brightness_def try_except_def)
  qed
  have fail: "estimate_brightness_body lib p = Inl e \<Longrightarrow> estimate_brightness lib p = 128"
    by (simp add: estimate_brightness_def try_except_def)
  have unreadable: "pil_open_gray lib p = Inl e \<Longrightarrow> estimate_brightness_body lib p = Inl e"
    unfolding estimate_brightness_body_def by (simp only: sum.case)
  from range fail unreadable show ?thesis
    unfolding pipeline_is_low_light_def is_low_light_def by simp
qed

theorem estimate_brightness_total_witness:
  "pil_open_gray (sample_detector False) ''/missing.jpg'' = Inl (Exception ''FileNotFoundError'')
   \<and> estimate_brightness_body (sample_detector False) ''/missing.jpg''
        = Inl (Exception ''FileNotFoundError'')
   \<and> estimate_brightness (sample_detector False) ''/missing.jpg'' = 128
   \<and> \<not> pipeline_is_low_light (sample_detector False) ''/missing.jpg''
   \<and> estimate_brightness (sample_detector False) ''/doc.jpg'' = 40
   \<and> pipeline_is_low_light (sample_detector False) ''/doc.jpg''"
  using estimate_brightness_total [of "sample_detector False" "''/missing.jpg''"
          "Exception ''FileNotFoundError''" 50]
        estimate_brightness_total [of "sample_detector False" "''/doc.jpg''"
          "Exception ''FileNotFoundError''" 50]
  by (simp add: sample_detector_fields sample_gray_brightness)


subsection \<open>Detector: the fallback on a sample image\<close>

lemma sample_scan:
  "fold (scan_pixel (point_map edge_threshold sample_edges))
     (List.product [0..<im_height (point_map edge_threshold sample_edges)]
                   [0..<im_width (point_map edge_threshold sample_edges)])
     \<lparr>s_min_x = 10, s_min_y = 10, s_max_x = 0, s_max_y = 0, s_edge_count = 0\<rparr>
   = \<lparr>s_min_x = 0, s_min_y = 0, s_max_x = 9, s_max_y = 9, s_edge_count = 100\<rparr>"
  by code_simp

lemma sample_dims:
  "im_width (point_map edge_threshold sample_edges) = 10"
  "im_height (point_map edge_threshold sample_edges) = 10"
  by (simp_all add: point_map_def sample_edges_def)

lemma sample_bbox:
  "find_content_bbox (point_map edge_threshold sample_edges) = Some (0, 0, 9, 9)"
  unfolding find_content_bbox_def Let_def sample_dims
  using sample_scan unfolding sample_dims by simp

text \<open>
  The double arithmetic on examples: a frame no wider than 960 is not rescaled; at width
  1125 the coordinate 192 comes back as 224, the quotient being just below 225; at width
  1074 the resized width is 959.
\<close>

lemma unscale_examples:
  "downscale 10 = 1"
  "unscale 1 0 = 0"
  "unscale 1 9 = 9"
  "unscale (downscale 1125) 192 = 224"
  "double_to_int (fl64 (of_int 1074 * downscale 1074)) = 959"
  by code_simp+

lemma sample_process_pillow:
  "process_pillow (sample_detector cv) src (10, 10)
     = Inr \<lparr>detected = True, points = Some [(0, 0), (9, 0), (9, 9), (0, 9)],
            confidence = 0.5, frame_size = (10, 10)\<rparr>"
  by (simp add: process_pillow_def DOWNSCALE_WIDTH_def sample_detector_fields
      sample_bbox unscale_examples)


subsection \<open>Detector: structured results\<close>

lemma default_undetected:
  "\<not> detected QuadResult_default" "confidence QuadResult_default = 0"
  "confidence (QuadResult_default\<lparr>frame_size := fs\<rparr>) = 0"
  by (simp_all add: QuadResult_default_def)

lemma process_opencv_undetected:
  assumes "process_opencv fr = Inr r" "\<not> detected r"
  shows "confidence r = 0"
proof -
  obtain ow oh where o: "f_original_size fr = (ow, oh)" by (cases "f_original_size fr")
  obtain w h where sz: "f_size fr = (w, h)" by (cases "f_size fr")
  obtain bq ba where f: "fold (best_quad_step (of_int (w * h) * MIN_AREA_RATIO)
      (of_int (w * h) * MAX_AREA_RATIO)) (f_contours fr) (None, 0) = (bq, ba)"
    by (cases "fold (best_quad_step (of_int (w * h) * MIN_AREA_RATIO)
      (of_int (w * h) * MAX_AREA_RATIO)) (f_contours fr) (None, 0)")
  show ?thesis
  proof (cases bq)
    case None
    with assms(1) o sz f have "r = QuadResult_default\<lparr>frame_size := (ow, oh)\<rparr>"
      by (simp add: process_opencv_def Let_def)
    then show ?thesis by (simp add: default_undetected)
  next
    case (Some quad)
    with assms(1) o sz f have "detected r"
      by (auto simp: process_opencv_def Let_def split: sum.splits)
    with assms(2) show ?thesis by simp
  qed
qed

lemma process_pillow_undetected:
  assumes "process_pillow lib src sz = Inr r" "\<not> detected r"
  shows "confidence r = 0"
proof -
  obtain ow oh where o: "sz = (ow, oh)" by (cases sz)
  from assms(1) o obtain raw where raw: "pil_find_edges lib src
      (if ow > DOWNSCALE_WIDTH
       then Some (double_to_int (fl64 (of_int ow * downscale ow)),
                   double_to_int (fl64 (of_int oh * downscale ow)))
       else None) = Inr raw"
    by (auto simp: process_pillow_def Let_def split: sum.splits)
  show ?thesis
  proof (cases "find_content_bbox (point_map edge_threshold raw)")
    case None
    with assms(1) o raw have "r = QuadResult_default\<lparr>frame_size := (ow, oh)\<rparr>"
      by (simp add: process_pillow_def Let_def)
    then show ?thesis by (simp add: default_undetected)
  next
    case (Some box)
    with assms(1) o raw have "detected r"
      by (auto simp: process_pillow_def Let_def split: prod.splits)
    with assms(2) show ?thesis by simp
  qed
qed

lemma detect_pillow_source_undetected:
  assumes "\<not> detected (detect_pillow_source lib src)"
  shows "confidence (detect_pillow_source lib src) = 0"
proof (cases "pil_image_open lib src")
  case (Inl e)
  then show ?thesis
    by (simp add: detect_pillow_source_def try_except_def default_undetected)
next
  case (Inr sz)
  show ?thesis
  proof (cases "process_pillow lib src sz")
    case (Inl e)
    with Inr show ?thesis
      by (simp add: detect_pillow_source_def try_except_def default_undetected)
  next
    case r: (Inr r)
    with Inr have eq: "detect_pillow_source lib src = r"
      by (simp add: detect_pillow_source_def try_except_def)
    with assms process_pillow_undetected [OF r] show ?thesis by simp
  qed
qed

lemma try_except_undetected:
  assumes "\<And>r. body = Inr r \<Longrightarrow> \<not> detected r \<Longrightarrow> confidence r = 0"
    and "\<not> detected (try_except body QuadResult_default)"
  shows "confidence (try_except body QuadResult_default) = 0"
  using assms by (cases body) (simp_all add: try_except_def default_undetected)

lemma cv_frame_undetected:
  assumes "(case cv2_contours lib src of Inl e \<Rightarrow> Inl e | Inr fr \<Rightarrow> process_opencv fr) = Inr r"
    and "\<not> detected r"
  shows "confidence r = 0"
  using assms by (cases "cv2_contours lib src") (simp_all add: process_opencv_undetected)

lemma detect_opencv_undetected:
  assumes "detect_opencv lib path = Inr r" "\<not> detected r"
  shows "confidence r = 0"
proof (cases "cv2_imread_ok lib path")
  case True
  with assms show ?thesis by (simp add: detect_opencv_def cv_frame_undetected)
next
  case False
  with assms show ?thesis by (auto simp: detect_opencv_def default_undetected)
qed

lemma detect_opencv_bytes_undetected:
  assumes "detect_opencv_bytes lib b w h = Inr r" "\<not> detected r"
  shows "confidence r = 0"
proof -
  consider (rgba) "int (length b) = w * h * 4" "\<not> (h < 0 \<or> w < 0)"
      "cv2_cvtColor_rgba lib b w h = None"
    | (rgb) "int (length b) \<noteq> w * h * 4" "int (length b) = w * h * 3" "\<not> (h < 0 \<or> w < 0)"
    | (other) "r = QuadResult_default"
    using assms(1) by (auto simp: detect_opencv_bytes_def split: if_splits option.splits)
  then show ?thesis
  proof cases
    case rgba
    with assms show ?thesis by (simp add: detect_opencv_bytes_def cv_frame_undetected)
  next
    case rgb
    with assms show ?thesis by (simp add: detect_opencv_bytes_def cv_frame_undetected)
  next
    case other
    then show ?thesis by (simp add: default_undetected)
  qed
qed

lemma detect_undetected:
  assumes "\<not> detected (detect lib path)"
  shows "confidence (detect lib path) = 0"
proof (cases "d_use_opencv lib")
  case True
  with assms show ?thesis
    unfolding detect_def detect_body_def
    by (simp add: try_except_undetected detect_opencv_undetected)
next
  case False
  with assms show ?thesis
    by (simp add: detect_def detect_body_def try_except_def detect_pillow_def
        detect_pillow_source_undetected)
qed

lemma detect_from_bytes_undetected:
  assumes "\<not> detected (detect_from_bytes lib b w h)"
  shows "confidence (detect_from_bytes lib b w h) = 0"
proof (cases "d_use_opencv lib")
  case True
  with assms show ?thesis
    unfolding detect_from_bytes_def detect_from_bytes_body_def
    by (simp add: try_except_undetected detect_opencv_bytes_undetected)
next
  case False
  with assms show ?thesis
    by (simp add: detect_from_bytes_def detect_from_bytes_body_def try_except_def
        detect_pillow_bytes_def detect_pillow_source_undetected)
qed

text \<open>
  What holds of both entry points: they are total, every failure gives the default result
  (when the body raises, when \<open>cv2.imread\<close> returns nothing, when Pillow cannot open the
  input or fails after opening it, and, with the OpenCV backend bound, when the length of
  the buffer is neither \<open>width * height * 4\<close> nor \<open>width * height * 3\<close>), and every result
  with \<open>detected\<close> false has confidence 0.
\<close>

lemma detect_errors_give_default:
  "(detect_body lib path = Inl e \<longrightarrow> detect lib path = QuadResult_default)
   \<and> (d_use_opencv lib \<and> \<not> cv2_imread_ok lib path \<longrightarrow> detect lib path = QuadResult_default)
   \<and> (\<not> d_use_opencv lib \<and> pil_image_open lib (PilFile path) = Inl e
        \<longrightarrow> detect lib path = QuadResult_default)
   \<and> (\<not> d_use_opencv lib \<and> pil_image_open lib (PilFile path) = Inr sz
        \<and> process_pillow lib (PilFile path) sz = Inl e
        \<longrightarrow> detect lib path = QuadResult_default)
   \<and> (detect_from_bytes_body lib b w h = Inl e
        \<longrightarrow> detect_from_bytes lib b w h = QuadResult_default)
   \<and> (d_use_opencv lib \<and> int (length b) \<noteq> w * h * 4 \<and> int (length b) \<noteq> w * h * 3
        \<longrightarrow> detect_from_bytes lib b w h = QuadResult_default)
   \<and> (\<not> d_use_opencv lib \<and> pil_image_open lib (PilBytes b) = Inl e
        \<longrightarrow> detect_from_bytes lib b w h = QuadResult_default)
   \<and> (\<not> d_use_opencv lib \<and> pil_image_open lib (PilBytes b) = Inr sz
        \<and> process_pillow lib (PilBytes b) sz = Inl e
        \<longrightarrow> detect_from_bytes lib b w h = QuadResult_default)
   \<and> (\<not> detected (detect lib path) \<longrightarrow> confidence (detect lib path) = 0)
   \<and> (\<not> detected (detect_from_bytes lib b w h)
        \<longrightarrow> confidence (detect_from_bytes lib b w h) = 0)
   \<and> \<not> detected QuadResult_default \<and> confidence QuadResult_default = 0"
proof -
  have c1: "detect_body lib path = Inl e \<longrightarrow> detect lib path = QuadResult_default"
    by (simp add: detect_def try_except_def)
  have c2: "d_use_opencv lib \<and> \<not> cv2_imread_ok lib path
              \<longrightarrow> detect lib path = QuadResult_default"
    by (simp add: detect_def detect_body_def detect_opencv_def try_except_def)
  have c3: "\<not> d_use_opencv lib \<and> pil_image_open lib (PilFile path) = Inl e
              \<longrightarrow> detect lib path = QuadResult_default"
    by (simp add: detect_def detect_body_def detect_pillow_def detect_pillow_source_def
        try_except_def)
  have c3': "\<not> d_use_opencv lib \<and> pil_image_open lib (PilFile path) = Inr sz
        \<and> process_pillow lib (PilFile path) sz = Inl e
        \<longrightarrow> detect lib path = QuadResult_default"
    by (simp add: detect_def detect_body_def detect_pillow_def detect_pillow_source_def
        try_except_def)
  have c4: "detect_from_bytes_body lib b w h = Inl e
              \<longrightarrow> detect_from_bytes lib b w h = QuadResult_default"
    by (simp add: detect_from_bytes_def try_except_def)
  have c5: "d_use_opencv lib \<and> int (length b) \<noteq> w * h * 4 \<and> int (length b) \<noteq> w * h * 3
              \<longrightarrow> detect_from_bytes lib b w h = QuadResult_default"
    by (simp add: detect_from_bytes_def detect_from_bytes_body_def detect_opencv_bytes_def
        try_except_def)
  have c6: "\<not> d_use_opencv lib \<and> pil_image_open lib (PilBytes b) = Inl e
              \<longrightarrow> detect_from_bytes lib b w h = QuadResult_default"
    by (simp add: detect_from_bytes_def detect_from_bytes_body_def detect_pillow_bytes_def
        detect_pillow_source_def try_except_def)
  have c6': "\<not> d_use_opencv lib \<and> pil_image_open lib (PilBytes b) = Inr sz
        \<and> process_pillow lib (PilBytes b) sz = Inl e
        \<longrightarrow> detect_from_bytes lib b w h = QuadResult_default"
    by (simp add: detect_from_bytes_def detect_from_bytes_body_def detect_pillow_bytes_def
        detect_pillow_source_def try_except_def)
  have c7: "\<not> detected (detect lib path) \<longrightarrow> confidence (detect lib path) = 0"
    using detect_undetected by blast
  have c8: "\<not> detected (detect_from_bytes lib b w h)
              \<longrightarrow> confidence (detect_from_bytes lib b w h) = 0"
    using detect_from_bytes_undetected by blast
  have c9: "\<not> detected QuadResult_default \<and> confidence QuadResult_default = 0"
    by (simp add: QuadResult_default_def)
  from c1 c2 c3 c3' c4 c5 c6 c6' c7 c8 c9 show ?thesis by blast
qed

text \<open>
  C7. With the Pillow fallback bound, \<open>detect_from_bytes\<close> never looks at \<open>width\<close> and
  \<open>height\<close>: the buffer goes to \<open>Image.open\<close>, and whenever Pillow decodes it the result is
  what the fallback finds in the decoded image, for every \<open>width\<close> and \<open>height\<close> and so
  also when the length of the buffer is neither \<open>width * height * 3\<close> nor
  \<open>width * height * 4\<close>. The OpenCV path rejects such a buffer.
\<close>

theorem detect_from_bytes_pillow_ignores_size:
  assumes "\<not> d_use_opencv lib"
    and "pil_image_open lib (PilBytes b) = Inr sz"
    and "process_pillow lib (PilBytes b) sz = Inr r"
  shows "detect_from_bytes lib b w h = r \<and> detect_from_bytes lib b w' h' = r"
  using assms
  by (simp add: detect_from_bytes_def detect_from_bytes_body_def detect_pillow_bytes_def
      detect_pillow_source_def try_except_def)

theorem detect_from_bytes_pillow_ignores_size_witness:
  "\<not> d_use_opencv (sample_detector False)
   \<and> pil_image_open (sample_detector False) (PilBytes sample_bytes) = Inr (10, 10)
   \<and> process_pillow (sample_detector False) (PilBytes sample_bytes) (10, 10)
       = Inr \<lparr>detected = True, points = Some [(0, 0), (9, 0), (9, 9), (0, 9)],
              confidence = 0.5, frame_size = (10, 10)\<rparr>
   \<and> int (length sample_bytes) \<noteq> 10 * 10 * 3 \<and> int (length sample_bytes) \<noteq> 10 * 10 * 4
   \<and> detect_from_bytes (sample_detector False) sample_bytes 10 10
       = \<lparr>detected = True, points = Some [(0, 0), (9, 0), (9, 9), (0, 9)],
          confidence = 0.5, frame_size = (10, 10)\<rparr>
   \<and> detect_from_bytes (sample_detector True) sample_bytes 10 10 = QuadResult_default"
proof -
  have a: "\<not> d_use_opencv (sample_detector False)"
    by (simp add: sample_detector_fields)
  have b: "pil_image_open (sample_detector False) (PilBytes sample_bytes) = Inr (10, 10)"
    by (simp add: sample_detector_fields)
  have c: "int (length sample_bytes) \<noteq> 10 * 10 * 3 \<and> int (length sample_bytes) \<noteq> 10 * 10 * 4"
    by (simp add: sample_bytes_def)
  have d: "detect_from_bytes (sample_detector True) sample_bytes 10 10 = QuadResult_default"
    by (simp add: detect_from_bytes_def detect_from_bytes_body_def detect_opencv_bytes_def
        try_except_def sample_detector_fields sample_bytes_def)
  from detect_from_bytes_pillow_ignores_size [OF a b sample_process_pillow, of 10 10 10 10]
    a b c d sample_process_pillow [of False "PilBytes sample_bytes"]
  show ?thesis by simp
qed

subsection \<open>Detector: corner ordering\<close>

lemma bit_length_le: "a < 2 ^ k \<Longrightarrow> bit_length a \<le> k"
proof (induction k arbitrary: a)
  case 0
  then show ?case by (simp add: bit_length.simps)
next
  case (Suc k)
  show ?case
  proof (cases "a = 0")
    case True
    then show ?thesis by (simp add: bit_length.simps)
  next
    case False
    from Suc.prems have "a div 2 < 2 ^ k" by simp
    then have "bit_length (a div 2) \<le> k" by (rule Suc.IH)
    with False show ?thesis by (subst bit_length.simps) simp
  qed
qed

lemma f32_small: "\<bar>n\<bar> < 2 ^ 24 \<Longrightarrow> f32 n = n"
proof -
  assume a: "\<bar>n\<bar> < 2 ^ 24"
  then have "nat \<bar>n\<bar> < 2 ^ 24" by simp
  then have "bit_length (nat \<bar>n\<bar>) \<le> 24" by (rule bit_length_le)
  then have e: "bit_length (nat \<bar>n\<bar>) - 24 = 0" by simp
  show ?thesis
    unfolding f32_def Let_def e by (simp add: sgn_if)
qed

lemma fold_min_Min: "fold min r (x::int) = Min (set (x # r))"
  by (rule Min.set_eq_fold [symmetric])

lemma fold_max_Max: "fold max r (x::int) = Max (set (x # r))"
  by (rule Max.set_eq_fold [symmetric])

lemma takeWhile_stops: "x \<in> set xs \<Longrightarrow> \<not> P x \<Longrightarrow> length (takeWhile P xs) < length xs"
  by (induction xs) auto

lemma argmin_least:
  assumes "xs \<noteq> []"
  shows "argmin xs < length xs \<and> (\<forall>v\<in>set xs. xs ! argmin xs \<le> v)"
proof -
  obtain x r where xs: "xs = x # r" using assms by (cases xs) auto
  let ?m = "Min (set xs)"
  have am: "argmin xs = length (takeWhile (\<lambda>v. v \<noteq> ?m) xs)"
    unfolding argmin_def xs fold_min_Min by simp
  have "?m \<in> set xs" using assms by (intro Min_in) auto
  then have lt: "argmin xs < length xs"
    unfolding am by (rule takeWhile_stops) simp
  then have "\<not> (xs ! argmin xs \<noteq> ?m)"
    unfolding am by (rule nth_length_takeWhile)
  then have "xs ! argmin xs = ?m" by simp
  with lt show ?thesis by simp
qed

lemma argmax_greatest:
  assumes "xs \<noteq> []"
  shows "argmax xs < length xs \<and> (\<forall>v\<in>set xs. v \<le> xs ! argmax xs)"
proof -
  obtain x r where xs: "xs = x # r" using assms by (cases xs) auto
  let ?m = "Max (set xs)"
  have am: "argmax xs = length (takeWhile (\<lambda>v. v \<noteq> ?m) xs)"
    unfolding argmax_def xs fold_max_Max by simp
  have "?m \<in> set xs" using assms by (intro Max_in) auto
  then have lt: "argmax xs < length xs"
    unfolding am by (rule takeWhile_stops) simp
  then have "\<not> (xs ! argmax xs \<noteq> ?m)"
    unfolding am by (rule nth_length_takeWhile)
  then have "xs ! argmax xs = ?m" by simp
  with lt show ?thesis by simp
qed

lemma reorder_min:
  assumes "j < length q" "\<forall>p\<in>set q. key (q ! j) \<le> key p" "extremes_unique key q"
  shows "q ! argmin (map key q) = q ! j"
proof -
  from assms(1) have ne: "map key q \<noteq> []" by auto
  let ?i = "argmin (map key q)"
  from argmin_least [OF ne] have i: "?i < length q" by simp
  from argmin_least [OF ne] have "\<forall>v\<in>set (map key q). map key q ! ?i \<le> v" by blast
  with i have least: "\<forall>p\<in>set q. key (q ! ?i) \<le> key p" by simp
  from i have mi: "q ! ?i \<in> set q" by simp
  from assms(1) have mj: "q ! j \<in> set q" by simp
  from least mj have a: "key (q ! ?i) \<le> key (q ! j)" by blast
  from assms(2) mi have b: "key (q ! j) \<le> key (q ! ?i)" by blast
  from least have all: "list_all (\<lambda>r. key (q ! ?i) \<le> key r) q"
    by (simp add: list_all_iff)
  from assms(3) mi mj have
    "key (q ! ?i) = key (q ! j)
       \<and> (list_all (\<lambda>r. key (q ! ?i) \<le> key r) q \<or> list_all (\<lambda>r. key r \<le> key (q ! ?i)) q)
     \<longrightarrow> q ! ?i = q ! j"
    unfolding extremes_unique_def list_all_iff by blast
  with a b all show ?thesis by simp
qed

lemma reorder_max:
  assumes "j < length q" "\<forall>p\<in>set q. key p \<le> key (q ! j)" "extremes_unique key q"
  shows "q ! argmax (map key q) = q ! j"
proof -
  from assms(1) have ne: "map key q \<noteq> []" by auto
  let ?i = "argmax (map key q)"
  from argmax_greatest [OF ne] have i: "?i < length q" by simp
  from argmax_greatest [OF ne] have "\<forall>v\<in>set (map key q). v \<le> map key q ! ?i" by blast
  with i have greatest: "\<forall>p\<in>set q. key p \<le> key (q ! ?i)" by simp
  from i have mi: "q ! ?i \<in> set q" by simp
  from assms(1) have mj: "q ! j \<in> set q" by simp
  from greatest mj have a: "key (q ! j) \<le> key (q ! ?i)" by blast
  from assms(2) mi have b: "key (q ! ?i) \<le> key (q ! j)" by blast
  from greatest have all: "list_all (\<lambda>r. key r \<le> key (q ! ?i)) q"
    by (simp add: list_all_iff)
  from assms(3) mi mj have
    "key (q ! ?i) = key (q ! j)
       \<and> (list_all (\<lambda>r. key (q ! ?i) \<le> key r) q \<or> list_all (\<lambda>r. key r \<le> key (q ! ?i)) q)
     \<longrightarrow> q ! ?i = q ! j"
    unfolding extremes_unique_def list_all_iff by blast
  with a b all show ?thesis by simp
qed


lemma f32_exact_point:
  "f32_exact ps \<Longrightarrow> p \<in> set ps \<Longrightarrow>
     f32 (fst p) = fst p \<and> f32 (snd p) = snd p
     \<and> point_sum p = fst p + snd p \<and> point_diff p = snd p - fst p"
proof -
  assume "f32_exact ps" "p \<in> set ps"
  then have b: "\<bar>fst p\<bar> < 2 ^ 23" "\<bar>snd p\<bar> < 2 ^ 23"
    by (simp_all add: f32_exact_def list_all_iff)
  then have "\<bar>fst p\<bar> < 2 ^ 24" "\<bar>snd p\<bar> < 2 ^ 24"
    "\<bar>fst p + snd p\<bar> < 2 ^ 24" "\<bar>snd p - fst p\<bar> < 2 ^ 24"
    by simp_all
  then show ?thesis by (simp add: point_sum_def point_diff_def f32_small)
qed

lemma order_points_exact:
  assumes "f32_exact ps" "ps \<noteq> []"
  shows "order_points ps =
     Inr [ps ! argmin (map (\<lambda>p. fst p + snd p) ps), ps ! argmin (map (\<lambda>p. snd p - fst p) ps),
          ps ! argmax (map (\<lambda>p. fst p + snd p) ps), ps ! argmax (map (\<lambda>p. snd p - fst p) ps)]"
proof -
  have m: "map (\<lambda>(x, y). (f32 x, f32 y)) ps = ps"
    using f32_exact_point [OF assms(1)] by (simp add: map_idI case_prod_beta)
  have s: "map point_sum ps = map (\<lambda>p. fst p + snd p) ps"
    using f32_exact_point [OF assms(1)] by simp
  have d: "map point_diff ps = map (\<lambda>p. snd p - fst p) ps"
    using f32_exact_point [OF assms(1)] by simp
  from assms(2) show ?thesis
    unfolding order_points_def Let_def m s d by simp
qed

lemma upright_quad_conditions:
  "f32_exact [(100, 100), (100, 700), (500, 700), (500, 100)]"
  "f32_exact [(100, 100), (500, 100), (500, 700), (100, 700)]"
  "extremes_unique (\<lambda>p. fst p + snd p) [(100, 100), (500, 100), (500, 700), (100, 700)]"
  "extremes_unique (\<lambda>p. snd p - fst p) [(100, 100), (500, 100), (500, 700), (100, 700)]"
  by (simp_all add: f32_exact_def extremes_unique_def)

lemma upright_quad_order:
  "order_points [(100, 100), (100, 700), (500, 700), (500, 100)]
     = Inr [(100, 100), (500, 100), (500, 700), (100, 700)]"
  using order_points_exact [OF upright_quad_conditions(1)]
  by (simp add: argmin_def argmax_def)

lemma slanted_quad_exact:
  "f32_exact [(100, 100), (100, 500), (0, 500), (0, 0)]"
  "f32_exact [(0, 0), (100, 100), (100, 500), (0, 500)]"
  by (simp_all add: f32_exact_def)

text \<open>
  C3 (as amended). Let \<open>q\<close> be the four corners the ordering heuristic returns for a list
  of points (with coordinates in the range where float32 is exact). If the smallest and
  the largest value of \<open>x + y\<close> and of \<open>y - x\<close> are each attained by a single point of
  \<open>q\<close>, ordering \<open>q\<close> again returns \<open>q\<close>.
\<close>

theorem order_points_idempotent:
  assumes "f32_exact pts0" and "order_points pts0 = Inr q"
    and "extremes_unique (\<lambda>p. fst p + snd p) q"
    and "extremes_unique (\<lambda>p. snd p - fst p) q"
  shows "order_points q = Inr q"
proof -
  let ?S = "\<lambda>p::point. fst p + snd p" and ?D = "\<lambda>p::point. snd p - fst p"
  from assms(2) have ne: "pts0 \<noteq> []"
    by (auto simp: order_points_def)
  let ?a = "argmin (map ?S pts0)" and ?b = "argmin (map ?D pts0)"
  let ?c = "argmax (map ?S pts0)" and ?d = "argmax (map ?D pts0)"
  from ne have ne': "map ?S pts0 \<noteq> []" "map ?D pts0 \<noteq> []" by simp_all
  have a: "?a < length pts0" "\<forall>p\<in>set pts0. ?S (pts0 ! ?a) \<le> ?S p"
    using argmin_least [OF ne'(1)] by auto
  have b: "?b < length pts0" "\<forall>p\<in>set pts0. ?D (pts0 ! ?b) \<le> ?D p"
    using argmin_least [OF ne'(2)] by auto
  have c: "?c < length pts0" "\<forall>p\<in>set pts0. ?S p \<le> ?S (pts0 ! ?c)"
    using argmax_greatest [OF ne'(1)] by auto
  have d: "?d < length pts0" "\<forall>p\<in>set pts0. ?D p \<le> ?D (pts0 ! ?d)"
    using argmax_greatest [OF ne'(2)] by auto
  from assms(2) order_points_exact [OF assms(1) ne]
  have q: "q = [pts0 ! ?a, pts0 ! ?b, pts0 ! ?c, pts0 ! ?d]" by simp
  with a(1) b(1) c(1) d(1) have sub: "set q \<subseteq> set pts0" by simp
  with assms(1) have ex: "f32_exact q"
    by (auto simp: f32_exact_def list_all_iff)
  from q have len: "0 < length q" "1 < length q" "2 < length q" "3 < length q" by simp_all
  from q have nth: "q ! 0 = pts0 ! ?a" "q ! 1 = pts0 ! ?b" "q ! 2 = pts0 ! ?c" "q ! 3 = pts0 ! ?d"
    by simp_all
  have m0: "\<forall>p\<in>set q. ?S (q ! 0) \<le> ?S p" using a(2) sub unfolding nth(1) by blast
  have m1: "\<forall>p\<in>set q. ?D (q ! 1) \<le> ?D p" using b(2) sub unfolding nth(2) by blast
  have m2: "\<forall>p\<in>set q. ?S p \<le> ?S (q ! 2)" using c(2) sub unfolding nth(3) by blast
  have m3: "\<forall>p\<in>set q. ?D p \<le> ?D (q ! 3)" using d(2) sub unfolding nth(4) by blast
  have r0: "q ! argmin (map ?S q) = q ! 0"
    by (rule reorder_min [OF len(1) m0 assms(3)])
  have r1: "q ! argmin (map ?D q) = q ! 1"
    by (rule reorder_min [OF len(2) m1 assms(4)])
  have r2: "q ! argmax (map ?S q) = q ! 2"
    by (rule reorder_max [OF len(3) m2 assms(3)])
  have r3: "q ! argmax (map ?D q) = q ! 3"
    by (rule reorder_max [OF len(4) m3 assms(4)])
  from q have qne: "q \<noteq> []" by simp
  have "order_points q = Inr [q ! 0, q ! 1, q ! 2, q ! 3]"
    unfolding order_points_exact [OF ex qne] r0 r1 r2 r3 by (rule refl)
  also have "[q ! 0, q ! 1, q ! 2, q ! 3] = q"
    unfolding nth by (simp add: q)
  finally show ?thesis .
qed


theorem order_points_idempotent_witness:
  "f32_exact [(100, 100), (100, 700), (500, 700), (500, 100)]
   \<and> order_points [(100, 100), (100, 700), (500, 700), (500, 100)]
        = Inr [(100, 100), (500, 100), (500, 700), (100, 700)]
   \<and> extremes_unique (\<lambda>p. fst p + snd p) [(100, 100), (500, 100), (500, 700), (100, 700)]
   \<and> extremes_unique (\<lambda>p. snd p - fst p) [(100, 100), (500, 100), (500, 700), (100, 700)]
   \<and> order_points [(100, 100), (500, 100), (500, 700), (100, 700)]
        = Inr [(100, 100), (500, 100), (500, 700), (100, 700)]"
  using order_points_idempotent [OF upright_quad_conditions(1) upright_quad_order
      upright_quad_conditions(3) upright_quad_conditions(4)]
    upright_quad_conditions upright_quad_order
  by simp

text \<open>
  C3 as stated fails when two corners tie for an extreme: for a quad whose top edge runs at
  45 degrees, the heuristic returns the corners clockwise from the top-left, and applied to
  that result it returns the top-left corner twice.
\<close>

theorem order_points_not_idempotent:
  "order_points [(100, 100), (100, 500), (0, 500), (0, 0)]
     = Inr [(0, 0), (100, 100), (100, 500), (0, 500)]
   \<and> order_points [(0, 0), (100, 100), (100, 500), (0, 500)]
     = Inr [(0, 0), (0, 0), (100, 500), (0, 500)]"
  using order_points_exact [OF slanted_quad_exact(1)] order_points_exact [OF slanted_quad_exact(2)]
  by (simp add: argmin_def argmax_def)


subsection \<open>Detector: the fallback bounding box\<close>

lemma scan_fold:
  "fold (scan_pixel img) L st =
     \<lparr>s_min_x = fold min (map (int \<circ> snd) (filter (is_edge img) L)) (s_min_x st),
      s_min_y = fold min (map (int \<circ> fst) (filter (is_edge img) L)) (s_min_y st),
      s_max_x = fold max (map (int \<circ> snd) (filter (is_edge img) L)) (s_max_x st),
      s_max_y = fold max (map (int \<circ> fst) (filter (is_edge img) L)) (s_max_y st),
      s_edge_count = s_edge_count st + length (filter (is_edge img) L)\<rparr>"
proof (induction L arbitrary: st)
  case Nil
  then show ?case by (cases st) simp
next
  case (Cons yx L)
  show ?case
  proof (cases "is_edge img yx")
    case True
    then have "scan_pixel img yx st =
        \<lparr>s_min_x = min (s_min_x st) (int (snd yx)), s_min_y = min (s_min_y st) (int (fst yx)),
         s_max_x = max (s_max_x st) (int (snd yx)), s_max_y = max (s_max_y st) (int (fst yx)),
         s_edge_count = s_edge_count st + 1\<rparr>"
      by (simp add: scan_pixel_def is_edge_def Let_def)
    with True show ?thesis
      by (simp add: Cons.IH min.commute max.commute)
  next
    case False
    then have "scan_pixel img yx st = st"
      by (simp add: scan_pixel_def is_edge_def Let_def)
    with False show ?thesis
      by (simp add: Cons.IH)
  qed
qed

lemma threshold_edge: "(unat (edge_threshold v) > 128) = (unat v > 30)"
  by (simp add: edge_threshold_def)

lemma thresholded_edges:
  "filter (is_edge (point_map edge_threshold raw))
     (List.product [0..<im_height raw] [0..<im_width raw]) = edge_pixels raw"
  unfolding edge_pixels_def
  by (rule filter_cong) (auto simp: is_edge_def point_map_def threshold_edge)

lemma fold_min_bounded:
  assumes "xs \<noteq> []" "\<forall>x\<in>set xs. x \<le> (a::int)"
  shows "fold min xs a = Min (set xs)"
proof -
  have "fold min xs a = Min (insert a (set xs))"
    using fold_min_Min [of xs a] by simp
  also have "\<dots> = min a (Min (set xs))"
    using assms(1) by (simp add: Min_insert)
  also have "\<dots> = Min (set xs)"
  proof -
    have "Min (set xs) \<in> set xs" using assms(1) by (intro Min_in) auto
    with assms(2) have "Min (set xs) \<le> a" by blast
    then show ?thesis by (simp add: min_def)
  qed
  finally show ?thesis .
qed

lemma fold_max_bounded:
  assumes "xs \<noteq> []" "\<forall>x\<in>set xs. (a::int) \<le> x"
  shows "fold max xs a = Max (set xs)"
proof -
  have "fold max xs a = Max (insert a (set xs))"
    using fold_max_Max [of xs a] by simp
  also have "\<dots> = max a (Max (set xs))"
    using assms(1) by (simp add: Max_insert)
  also have "\<dots> = Max (set xs)"
  proof -
    have "Max (set xs) \<in> set xs" using assms(1) by (intro Max_in) auto
    with assms(2) have "a \<le> Max (set xs)" by blast
    then show ?thesis by (simp add: max_def)
  qed
  finally show ?thesis .
qed

lemma edge_pixels_inside:
  "yx \<in> set (edge_pixels raw) \<Longrightarrow> fst yx < im_height raw \<and> snd yx < im_width raw"
  by (auto simp: edge_pixels_def)


lemma point_map_size:
  "im_width (point_map f img) = im_width img" "im_height (point_map f img) = im_height img"
  by (simp_all add: point_map_def)

lemma scan_thresholded:
  assumes "edge_pixels raw \<noteq> []"
  shows "fold (scan_pixel (point_map edge_threshold raw))
           (List.product [0..<im_height raw] [0..<im_width raw])
           \<lparr>s_min_x = int (im_width raw), s_min_y = int (im_height raw), s_max_x = 0,
            s_max_y = 0, s_edge_count = 0\<rparr>
         = \<lparr>s_min_x = Min (set (map (int \<circ> snd) (edge_pixels raw))),
            s_min_y = Min (set (map (int \<circ> fst) (edge_pixels raw))),
            s_max_x = Max (set (map (int \<circ> snd) (edge_pixels raw))),
            s_max_y = Max (set (map (int \<circ> fst) (edge_pixels raw))),
            s_edge_count = length (edge_pixels raw)\<rparr>"
proof -
  let ?E = "edge_pixels raw"
  from assms have ne: "map (int \<circ> snd) ?E \<noteq> []" "map (int \<circ> fst) ?E \<noteq> []" by simp_all
  have bx: "\<forall>x\<in>set (map (int \<circ> snd) ?E). x \<le> int (im_width raw)"
    using edge_pixels_inside [of _ raw] by fastforce
  have by': "\<forall>y\<in>set (map (int \<circ> fst) ?E). y \<le> int (im_height raw)"
    using edge_pixels_inside [of _ raw] by fastforce
  have px: "\<forall>x\<in>set (map (int \<circ> snd) ?E). 0 \<le> x" by simp
  have py: "\<forall>y\<in>set (map (int \<circ> fst) ?E). 0 \<le> y" by simp
  show ?thesis
    unfolding scan_fold thresholded_edges
    by (simp add: fold_min_bounded [OF ne(1) bx] fold_min_bounded [OF ne(2) by']
        fold_max_bounded [OF ne(1) px] fold_max_bounded [OF ne(2) py])
qed

lemma scan_count:
  "s_edge_count (fold (scan_pixel (point_map edge_threshold raw))
           (List.product [0..<im_height raw] [0..<im_width raw])
           \<lparr>s_min_x = int (im_width raw), s_min_y = int (im_height raw), s_max_x = 0,
            s_max_y = 0, s_edge_count = 0\<rparr>) = length (edge_pixels raw)"
  unfolding scan_fold thresholded_edges by simp

lemma find_content_bbox_spec:
  "find_content_bbox (point_map edge_threshold raw) =
     (if length (edge_pixels raw) < 100 then None
      else case margin_box (int (im_width raw)) (int (im_height raw)) (edge_pixels raw) of
             (x1, y1, x2, y2) \<Rightarrow>
               if (of_int (x2 - x1) :: real) < of_int (int (im_width raw)) * 0.2
                  \<or> (of_int (y2 - y1) :: real) < of_int (int (im_height raw)) * 0.2
               then None else Some (x1, y1, x2, y2))"
proof (cases "length (edge_pixels raw) < 100")
  case True
  then show ?thesis
    unfolding find_content_bbox_def Let_def point_map_size scan_count by simp
next
  case False
  then have ne: "edge_pixels raw \<noteq> []" by auto
  from False show ?thesis
    unfolding find_content_bbox_def Let_def point_map_size scan_thresholded [OF ne]
    by (simp add: margin_box_def)
qed


lemma sample_edge_count: "length (edge_pixels sample_edges) = 100"
  by code_simp

lemma wide_frame_unscale:
  "unscale (downscale 1125) 0 = 0"
  "unscale (downscale 1125) 9 = 10"
  by code_simp+

lemma wide_frame_process_pillow:
  "process_pillow (sample_detector False) (PilFile ''/doc.jpg'') (1125, 1500)
     = Inr \<lparr>detected = True, points = Some [(0, 0), (10, 0), (10, 10), (0, 10)],
            confidence = 0.5, frame_size = (1125, 1500)\<rparr>"
  by (simp add: process_pillow_def DOWNSCALE_WIDTH_def sample_detector_fields
      sample_bbox wide_frame_unscale)

text \<open>
  C6. When the edge-filtered image is obtained, the fallback reports \<open>detected\<close> exactly
  when at least 100 pixels exceed the binary threshold and the bounding box of those
  pixels, widened by the 10-pixel margin and clamped to the frame, spans at least 20% of
  the frame's width and of its height; the quad is then the four corners of that box
  (top-left, top-right, bottom-right, bottom-left), each coordinate rescaled to the
  original frame as \<open>int(v / scale)\<close> in double arithmetic, and the confidence is 0.5.
\<close>

theorem process_pillow_detects_iff:
  assumes "pil_find_edges lib src
             (if ow > DOWNSCALE_WIDTH
              then Some (double_to_int (fl64 (of_int ow * downscale ow)),
                   double_to_int (fl64 (of_int oh * downscale ow)))
              else None) = Inr raw"
  shows "\<exists>r. process_pillow lib src (ow, oh) = Inr r
     \<and> (detected r \<longleftrightarrow>
          100 \<le> length (edge_pixels raw)
          \<and> (case margin_box (int (im_width raw)) (int (im_height raw)) (edge_pixels raw) of
                (x1, y1, x2, y2) \<Rightarrow>
                  of_int (int (im_width raw)) * 0.2 \<le> (of_int (x2 - x1) :: real)
                  \<and> of_int (int (im_height raw)) * 0.2 \<le> (of_int (y2 - y1) :: real)))
     \<and> (detected r \<longrightarrow>
          (case margin_box (int (im_width raw)) (int (im_height raw)) (edge_pixels raw) of
             (x1, y1, x2, y2) \<Rightarrow>
               points r = Some [(unscale (downscale ow) x1, unscale (downscale ow) y1),
                                (unscale (downscale ow) x2, unscale (downscale ow) y1),
                                (unscale (downscale ow) x2, unscale (downscale ow) y2),
                                (unscale (downscale ow) x1, unscale (downscale ow) y2)])
          \<and> confidence r = 0.5 \<and> frame_size r = (ow, oh))"
proof -
  obtain x1 y1 x2 y2 where
    box: "margin_box (int (im_width raw)) (int (im_height raw)) (edge_pixels raw)
            = (x1, y1, x2, y2)"
    by (cases "margin_box (int (im_width raw)) (int (im_height raw)) (edge_pixels raw)") auto
  show ?thesis
    unfolding process_pillow_def Let_def prod.case assms sum.case find_content_bbox_spec box
    by (auto simp: QuadResult_default_def not_less)
qed

theorem process_pillow_detects_iff_witness:
  "pil_find_edges (sample_detector False) (PilFile ''/doc.jpg'') None = Inr sample_edges
   \<and> length (edge_pixels sample_edges) = 100
   \<and> process_pillow (sample_detector False) (PilFile ''/doc.jpg'') (10, 10)
       = Inr \<lparr>detected = True, points = Some [(0, 0), (9, 0), (9, 9), (0, 9)],
              confidence = 0.5, frame_size = (10, 10)\<rparr>
   \<and> process_pillow (sample_detector False) (PilFile ''/doc.jpg'') (1125, 1500)
       = Inr \<lparr>detected = True, points = Some [(0, 0), (10, 0), (10, 10), (0, 10)],
              confidence = 0.5, frame_size = (1125, 1500)\<rparr>"
  using process_pillow_detects_iff [of "sample_detector False" "PilFile ''/doc.jpg''" 10 10
          sample_edges]
        process_pillow_detects_iff [of "sample_detector False" "PilFile ''/doc.jpg''" 1125 1500
          sample_edges]
  by (simp add: sample_detector_fields DOWNSCALE_WIDTH_def sample_edge_count
      sample_process_pillow wide_frame_process_pillow)

end
